theory Spec2Isabelle
  imports Main "HOL-Library.AList" "HOL-Library.Sublist"
begin

section \<open>JavaScript values\<close>

text \<open>
  The runtime of \<^verbatim>\<open>packages/core/src/runtime.ts\<close> handles values of type
  \<^verbatim>\<open>any\<close>: settings, provider values, model results. They are modelled by one
  datatype. An object is the list of its own entries in insertion order; the object it
  denotes is \<open>map_of\<close> of that list. Numbers are integers (no NaN, no fractions), and
  strings are lists of ASCII characters.
\<close>

datatype jsval =
    JUndefined
  | JNull
  | JBool bool
  | JNum int
  | JStr string
  | JArr "jsval list"
  | JObj "(string \<times> jsval) list"

text \<open>Truthiness, as \<^verbatim>\<open>||\<close>, \<^verbatim>\<open>!\<close> and \<^verbatim>\<open>if\<close> read a value.\<close>

fun truthy :: "jsval \<Rightarrow> bool" where
  "truthy JUndefined = False"
| "truthy JNull = False"
| "truthy (JBool b) = b"
| "truthy (JNum n) = (n \<noteq> 0)"
| "truthy (JStr s) = (s \<noteq> [])"
| "truthy (JArr xs) = True"
| "truthy (JObj kvs) = True"

text \<open>\<^verbatim>\<open>a || b\<close>\<close>

definition js_or :: "jsval \<Rightarrow> jsval \<Rightarrow> jsval" where
  "js_or a b = (if truthy a then a else b)"

text \<open>The decimal text of an array index.\<close>

fun show_nat :: "nat \<Rightarrow> string" where
  "show_nat n =
     (if n < 10 then [''0123456789'' ! n]
      else show_nat (n div 10) @ [''0123456789'' ! (n mod 10)])"

declare show_nat.simps [simp del]

text \<open>
  The own entries of a value, as \<^verbatim>\<open>{...x}\<close>, \<^verbatim>\<open>Object.keys(x)\<close> and
  \<^verbatim>\<open>Object.assign(target, x)\<close> read them: the entries of an object, the elements of
  an array under their indices, the characters of a string under their indices.
  Properties that are not enumerable or are found on a prototype (\<^verbatim>\<open>length\<close>,
  \<^verbatim>\<open>toString\<close>) are outside the model.
\<close>

fun own_entries :: "jsval \<Rightarrow> (string \<times> jsval) list" where
  "own_entries (JObj kvs) = kvs"
| "own_entries (JArr xs) = zip (map show_nat [0..<length xs]) xs"
| "own_entries (JStr s) = zip (map show_nat [0..<length s]) (map (\<lambda>c. JStr [c]) s)"
| "own_entries x = []"

text \<open>\<^verbatim>\<open>x?.[key]\<close>: undefined when \<open>x\<close> is null or undefined, its own property otherwise.\<close>

definition get_opt :: "jsval \<Rightarrow> string \<Rightarrow> jsval" where
  "get_opt x key = (case map_of (own_entries x) key of Some v \<Rightarrow> v | None \<Rightarrow> JUndefined)"

text \<open>The source \<open>x\<close> holds the key.\<close>

definition has_key :: "jsval \<Rightarrow> string \<Rightarrow> bool" where
  "has_key x key = (map_of (own_entries x) key \<noteq> None)"

text \<open>\<^verbatim>\<open>typeof x === "object"\<close>\<close>

fun is_object :: "jsval \<Rightarrow> bool" where
  "is_object JNull = True"
| "is_object (JArr xs) = True"
| "is_object (JObj kvs) = True"
| "is_object x = False"

section \<open>Strings\<close>

text \<open>\<^verbatim>\<open>String.prototype.toLowerCase\<close> on ASCII text.\<close>

definition lower_char :: "char \<Rightarrow> char" where
  "lower_char c =
     (case map_of (zip ''ABCDEFGHIJKLMNOPQRSTUVWXYZ'' ''abcdefghijklmnopqrstuvwxyz'') c of
        Some d \<Rightarrow> d
      | None \<Rightarrow> c)"

definition toLowerCase :: "string \<Rightarrow> string" where
  "toLowerCase s = map lower_char s"

text \<open>
  \<^verbatim>\<open>s.replace("_", "")\<close>: with a string pattern, \<^verbatim>\<open>replace\<close> rewrites the first
  occurrence only. \<open>replace_first c s\<close> deletes the first \<open>c\<close> of \<open>s\<close>.
\<close>

fun replace_first :: "char \<Rightarrow> string \<Rightarrow> string" where
  "replace_first c [] = []"
| "replace_first c (x # xs) = (if x = c then xs else x # replace_first c xs)"

text \<open>\<^verbatim>\<open>s.includes(t)\<close>: \<open>t\<close> occurs in \<open>s\<close> as a contiguous run.\<close>

fun str_includes :: "string \<Rightarrow> string \<Rightarrow> bool" where
  "str_includes [] t = (t = [])"
| "str_includes (x # xs) t = (prefix t (x # xs) \<or> str_includes xs t)"

text \<open>\<^verbatim>\<open>parts.join(sep)\<close>\<close>

fun str_join :: "string \<Rightarrow> string list \<Rightarrow> string" where
  "str_join sep [] = []"
| "str_join sep [x] = x"
| "str_join sep (x # y # ys) = x @ sep @ str_join sep (y # ys)"

text \<open>
  The local function of \<^verbatim>\<open>processActions\<close>:
  \<^verbatim>\<open>function normalizeAction(action) { return action.toLowerCase().replace("_", ""); }\<close>
\<close>

definition normalizeAction :: "string \<Rightarrow> string" where
  "normalizeAction action = replace_first (CHR ''_'') (toLowerCase action)"

text \<open>
  What the specification says of the normalisation: lower-case, every underscore
  removed.
\<close>

definition normalize_spec :: "string \<Rightarrow> string" where
  "normalize_spec s = filter (\<lambda>c. c \<noteq> CHR ''_'') (toLowerCase s)"

section \<open>Settings\<close>

text \<open>
  The character of an agent. \<^verbatim>\<open>secrets\<close> and \<^verbatim>\<open>settings\<close> are optional
  objects (\<open>JUndefined\<close> when absent); the nested secrets are the entry
  \<^verbatim>\<open>settings.secrets\<close>.
\<close>

record agent_character =
  ch_name :: string
  ch_secrets :: jsval
  ch_settings :: jsval

text \<open>
  \<^verbatim>\<open>getSetting(key)\<close>. The process-wide \<^verbatim>\<open>settings\<close> object is imported from
  \<^verbatim>\<open>./environment\<close>, which is not part of the sources at hand: it is the parameter
  \<open>env\<close>, an object.
\<close>

definition getSetting :: "jsval \<Rightarrow> agent_character \<Rightarrow> string \<Rightarrow> jsval" where
  "getSetting env ch key =
     (let v =
        js_or (js_or (js_or (get_opt (ch_secrets ch) key)
                            (get_opt (ch_settings ch) key))
                     (get_opt (get_opt (ch_settings ch) ''secrets'') key))
              (get_opt env key)
      in if v = JStr ''true'' then JBool True
         else if v = JStr ''false'' then JBool False
         else js_or v JNull)"

text \<open>
  The reading of the specification: the highest-priority source that contains the key
  decides, whatever value it holds.
\<close>

definition coerce_setting :: "jsval \<Rightarrow> jsval" where
  "coerce_setting v =
     (if v = JStr ''true'' then JBool True
      else if v = JStr ''false'' then JBool False
      else js_or v JNull)"

definition setting_sources :: "jsval \<Rightarrow> agent_character \<Rightarrow> jsval list" where
  "setting_sources env ch =
     [ch_secrets ch, ch_settings ch, get_opt (ch_settings ch) ''secrets'', env]"

definition getSetting_spec :: "jsval \<Rightarrow> agent_character \<Rightarrow> string \<Rightarrow> jsval" where
  "getSetting_spec env ch key =
     (case find (\<lambda>src. has_key src key) (setting_sources env ch) of
        None \<Rightarrow> JNull
      | Some src \<Rightarrow> coerce_setting (get_opt src key))"

section \<open>Errors, outcomes and effects\<close>

text \<open>
  A call either returns or throws. Every \<^verbatim>\<open>throw\<close> of the source, and every throw
  of a function the runtime calls (a provider, an action handler, a model handler, a
  service factory, the storage adapter), is a branch \<open>Threw\<close> of the model.
\<close>

datatype error = Error string | TypeError string

datatype 'a outcome = Returned 'a | Threw error

fun error_text :: "error \<Rightarrow> string" where
  "error_text (Error s) = s"
| "error_text (TypeError s) = s"

type_synonym uuid = string

text \<open>A \<^verbatim>\<open>Memory\<close>: the fields the runtime reads.\<close>

record content =
  c_text :: "string option"
  c_actions :: "string list option"

record memory =
  m_id :: uuid
  m_entityId :: uuid
  m_roomId :: uuid
  m_content :: "content option"

text \<open>
  A \<^verbatim>\<open>State\<close> snapshot: \<^verbatim>\<open>{values, data, text}\<close>. \<^verbatim>\<open>values\<close> and \<^verbatim>\<open>data\<close> are
  objects read by key; the per-provider object \<^verbatim>\<open>data.providers\<close> is iterated, so it
  is a \<open>JObj\<close> with its entries in insertion order. (JavaScript visits keys that are
  array indices first; provider names are taken not to be array indices.)
\<close>

record state =
  s_values :: "string \<rightharpoonup> jsval"
  s_data :: "string \<rightharpoonup> jsval"
  s_text :: string

text \<open>
  The functions that plugins supply receive the runtime as an argument. In the model they
  are functions of their other arguments that return or throw; that they ran is recorded
  in the trace of the runtime. They do not write to the runtime behind its back.
\<close>

record provider_result =
  pr_values :: jsval
  pr_text :: "string option"
  pr_data :: jsval

text \<open>
  A \<^verbatim>\<open>Provider\<close>. \<open>p_ref\<close> is the identity of the object (what a JavaScript
  \<^verbatim>\<open>Set\<close> compares); \<^verbatim>\<open>private\<close> and \<^verbatim>\<open>dynamic\<close> are read through \<^verbatim>\<open>!\<close> only.
\<close>

record provider =
  p_ref :: nat
  p_name :: string
  p_position :: "int option"
  p_private :: bool
  p_dynamic :: bool
  p_get :: "memory \<Rightarrow> state \<Rightarrow> provider_result outcome"

type_synonym callback = nat

type_synonym handler =
  "memory \<Rightarrow> state \<Rightarrow> callback option \<Rightarrow> memory list \<Rightarrow> unit outcome"

record action =
  a_name :: string
  a_similes :: "string list option"
  a_handler :: "handler option"

record evaluator =
  e_name :: string
  e_alwaysRun :: bool
  e_validate :: "memory \<Rightarrow> state \<Rightarrow> bool outcome"
  e_handler :: "handler option"

type_synonym service_instance = nat

record service =
  sv_serviceType :: "string option"
  sv_start :: "unit \<Rightarrow> service_instance outcome"

type_synonym model_handler = "jsval \<Rightarrow> jsval outcome"

type_synonym event_handler = "jsval \<Rightarrow> unit outcome"

type_synonym route = string

text \<open>The audit entries written through \<^verbatim>\<open>getDatabaseAdapter().log\<close>.\<close>

datatype log_body =
    ActionBody string "string option" uuid state "memory list"
  | ModelBody string string "string list" jsval

record log_entry =
  l_entityId :: uuid
  l_roomId :: uuid
  l_type :: string
  l_body :: log_body

record db_adapter =
  ad_ref :: nat
  ad_log :: "log_entry \<Rightarrow> unit outcome"

record plugin =
  pl_name :: string
  pl_adapter :: "db_adapter option"
  pl_actions :: "action list option"
  pl_evaluators :: "evaluator list option"
  pl_providers :: "provider list option"
  pl_models :: "(string \<times> model_handler) list option"
  pl_routes :: "route list option"
  pl_events :: "(string \<times> event_handler list) list option"
  pl_services :: "service list option"
  pl_init :: "(jsval \<Rightarrow> unit outcome) option"
  pl_config :: jsval

text \<open>What the runtime does to the outside, in order.\<close>

datatype level = LDebug | LInfo | LLog | LSuccess | LWarn | LError

datatype effect =
    Logged level string
  | ProviderGet string memory state
  | HandlerRun string memory state "callback option" "memory list"
  | DbLog log_entry
  | ServiceStart string "service_instance outcome"
  | ModelRun string jsval
  | PluginInit string jsval

section \<open>The runtime\<close>

text \<open>The fields of \<^verbatim>\<open>AgentRuntime\<close>, and the trace of its effects.\<close>

record runtime =
  agentId :: uuid
  character :: agent_character
  adapter :: "db_adapter option"
  actions :: "action list"
  evaluators :: "evaluator list"
  providers :: "provider list"
  plugins :: "plugin list"
  events :: "string \<rightharpoonup> event_handler list"
  stateCache :: "uuid \<rightharpoonup> state"
  services :: "string \<rightharpoonup> service_instance"
  models :: "string \<rightharpoonup> model_handler list"
  routes :: "route list"
  trace :: "effect list"

definition emit :: "effect \<Rightarrow> runtime \<Rightarrow> runtime" where
  "emit e rt = rt\<lparr>trace := trace rt @ [e]\<rparr>"

definition logger :: "level \<Rightarrow> string \<Rightarrow> runtime \<Rightarrow> runtime" where
  "logger l s rt = emit (Logged l s) rt"

text \<open>The prefix \<^verbatim>\<open>${this.character.name}(${this.agentId})\<close> of several log lines.\<close>

definition who :: "runtime \<Rightarrow> string" where
  "who rt = ch_name (character rt) @ ''('' @ agentId rt @ '')''"

section \<open>State composition\<close>

definition emptyState :: state where
  "emptyState = \<lparr>s_values = Map.empty, s_data = Map.empty, s_text = []\<rparr>"

definition newline :: string where
  "newline = [CHR 0x0A]"

text \<open>\<^verbatim>\<open>cachedState.data.providers\<close>\<close>

definition data_providers :: "state \<Rightarrow> jsval" where
  "data_providers st = (case s_data st ''providers'' of Some v \<Rightarrow> v | None \<Rightarrow> JUndefined)"

definition existingProviderNames :: "state \<Rightarrow> string list" where
  "existingProviderNames cachedState =
     (if truthy (data_providers cachedState)
      then map fst (own_entries (data_providers cachedState)) else [])"

text \<open>
  Steps 1 and 2 of \<^verbatim>\<open>composeState\<close>: the names to fetch. The source collects them
  in a \<^verbatim>\<open>Set\<close> that is only asked for membership, so a list does.
\<close>

definition providerNames ::
  "runtime \<Rightarrow> state \<Rightarrow> string list option \<Rightarrow> string list option \<Rightarrow> string list" where
  "providerNames rt cachedState filterList includeList =
     (let base =
        (case filterList of
           Some (n # ns) \<Rightarrow> n # ns
         | _ \<Rightarrow>
           map p_name
             (filter (\<lambda>p. \<not> p_private p \<and> \<not> p_dynamic p \<and>
                          p_name p \<notin> set (existingProviderNames cachedState))
                (providers rt)))
      in case includeList of Some (n # ns) \<Rightarrow> base @ (n # ns) | _ \<Rightarrow> base)"

text \<open>\<^verbatim>\<open>Array.from(new Set(xs))\<close>: the first occurrence of every element, in order.\<close>

definition dedup :: "'a list \<Rightarrow> 'a list" where
  "dedup xs = fold (\<lambda>x acc. if x \<in> set acc then acc else acc @ [x]) xs []"

definition position_of :: "provider \<Rightarrow> int" where
  "position_of p = (case p_position p of Some n \<Rightarrow> n | None \<Rightarrow> 0)"

text \<open>
  The providers to call: those registered under a wanted name, without repetition,
  sorted by \<^verbatim>\<open>(a.position || 0) - (b.position || 0)\<close>. \<^verbatim>\<open>Array.prototype.sort\<close> is
  stable, as \<open>sort_key\<close> is.
\<close>

definition providersToGet :: "runtime \<Rightarrow> string list \<Rightarrow> provider list" where
  "providersToGet rt names =
     sort_key position_of (dedup (filter (\<lambda>p. p_name p \<in> set names) (providers rt)))"

text \<open>
  \<^verbatim>\<open>Promise.all(providersToGet.map(async (provider) => ...))\<close>. Every \<^verbatim>\<open>provider.get\<close>
  is called, in order, with the cached state, before any result is awaited. The results
  are read in the order of the providers; the first that threw is what the call throws
  (in JavaScript the earliest rejection in time decides which error it is). The
  duration in the log line is wall-clock time and is left out of the text.
\<close>

definition launch ::
  "runtime \<Rightarrow> memory \<Rightarrow> state \<Rightarrow> provider list \<Rightarrow> runtime" where
  "launch rt message cachedState ps =
     fold (\<lambda>p. emit (ProviderGet (p_name p) message cachedState)) ps rt"

fun awaitAll ::
  "runtime \<Rightarrow> (string \<times> provider_result outcome) list \<Rightarrow>
   runtime \<times> (string \<times> provider_result) list outcome" where
  "awaitAll rt [] = (rt, Returned [])"
| "awaitAll rt ((n, Threw e) # rest) = (rt, Threw e)"
| "awaitAll rt ((n, Returned r) # rest) =
     (case awaitAll (logger LWarn (n @ '' Provider took some ms to respond'') rt) rest of
        (rt', Threw e) \<Rightarrow> (rt', Threw e)
      | (rt', Returned rs) \<Rightarrow> (rt', Returned ((n, r) # rs)))"

text \<open>\<^verbatim>\<open>combinedValues[result.providerName] = result.values || {}\<close>, for every result.\<close>

definition combineValues ::
  "(string \<times> jsval) list \<Rightarrow> (string \<times> provider_result) list \<Rightarrow> (string \<times> jsval) list" where
  "combineValues existing providerData =
     fold (\<lambda>(n, r) cv. AList.update n (js_or (pr_values r) (JObj [])) cv) providerData existing"

text \<open>
  \<^verbatim>\<open>providerData.map((result) => result.text).filter((text) => text !== "").join("\n")\<close>.
  A missing text is not the empty string, so it stays in the list, and \<^verbatim>\<open>join\<close>
  prints it as the empty string.
\<close>

definition newProvidersText :: "(string \<times> provider_result) list \<Rightarrow> string" where
  "newProvidersText providerData =
     str_join newline
       (map (\<lambda>t. case t of Some s \<Rightarrow> s | None \<Rightarrow> [])
          (filter (\<lambda>t. t \<noteq> Some []) (map (\<lambda>(n, r). pr_text r) providerData)))"

definition providersText :: "string \<Rightarrow> string \<Rightarrow> string" where
  "providersText cachedText newText =
     (if cachedText \<noteq> [] \<and> newText \<noteq> [] then cachedText @ newline @ newText
      else if newText \<noteq> [] then newText
      else if cachedText \<noteq> [] then cachedText
      else [])"

text \<open>
  \<^verbatim>\<open>for (const providerName in combinedValues) { ... Object.assign(values, providerValues) }\<close>
  for the entries that are truthy and of type \<^verbatim>\<open>"object"\<close>.
\<close>

definition mergeValues ::
  "(string \<rightharpoonup> jsval) \<Rightarrow> (string \<times> jsval) list \<Rightarrow> (string \<rightharpoonup> jsval)" where
  "mergeValues vals combined =
     fold (\<lambda>(n, pv) m. if truthy pv \<and> is_object pv then m ++ map_of (own_entries pv) else m)
       combined vals"

text \<open>
  The second half of \<^verbatim>\<open>composeState\<close>: the new snapshot, assembled from the cached
  one and the fetched results.
\<close>

definition newState :: "state \<Rightarrow> (string \<times> provider_result) list \<Rightarrow> state" where
  "newState cachedState providerData =
     (let existingProviderData = own_entries (js_or (data_providers cachedState) (JObj []));
          combinedValues = combineValues existingProviderData providerData;
          ptext = providersText (s_text cachedState) (newProvidersText providerData);
          vals = mergeValues (s_values cachedState) combinedValues
      in \<lparr>s_values = vals(''providers'' \<mapsto> JStr ptext),
          s_data = (s_data cachedState)(''providers'' \<mapsto> JObj combinedValues),
          s_text = ptext\<rparr>)"

text \<open>\<^verbatim>\<open>(await this.stateCache.get(message.id)) || { values: {}, data: {}, text: "" }\<close>\<close>

definition cachedStateOf :: "runtime \<Rightarrow> memory \<Rightarrow> state" where
  "cachedStateOf rt message =
     (case stateCache rt (m_id message) of Some st \<Rightarrow> st | None \<Rightarrow> emptyState)"

definition composeState ::
  "runtime \<Rightarrow> memory \<Rightarrow> string list option \<Rightarrow> string list option \<Rightarrow>
   runtime \<times> state outcome" where
  "composeState rt message filterList includeList =
     (let cachedState = cachedStateOf rt message;
          ps = providersToGet rt (providerNames rt cachedState filterList includeList)
      in case awaitAll (launch rt message cachedState ps)
                (map (\<lambda>p. (p_name p, p_get p message cachedState)) ps) of
           (rt2, Threw e) \<Rightarrow> (rt2, Threw e)
         | (rt2, Returned providerData) \<Rightarrow>
             (rt2\<lparr>stateCache :=
                    (stateCache rt2)(m_id message \<mapsto> newState cachedState providerData)\<rparr>,
              Returned (newState cachedState providerData)))"

section \<open>Action dispatch\<close>

text \<open>
  \<^verbatim>\<open>!response.content?.actions || response.content.actions.length === 0\<close>: the
  actions a response names, when it names any.
\<close>

definition responseActions :: "memory \<Rightarrow> string list option" where
  "responseActions response =
     (case m_content response of
        None \<Rightarrow> None
      | Some c \<Rightarrow> (case c_actions c of Some (x # xs) \<Rightarrow> Some (x # xs) | _ \<Rightarrow> None))"

text \<open>The predicate of \<^verbatim>\<open>this.actions.find(...)\<close>: containment in either direction.\<close>

definition nameMatches :: "string \<Rightarrow> action \<Rightarrow> bool" where
  "nameMatches normalizedResponseAction a =
     (str_includes (normalizeAction (a_name a)) normalizedResponseAction \<or>
      str_includes normalizedResponseAction (normalizeAction (a_name a)))"

text \<open>
  \<^verbatim>\<open>_action.similes?.find(...)\<close>, with the normalisation written out at the call as
  in the source. The result is the simile found, and \<^verbatim>\<open>if (simileAction)\<close> reads its
  truthiness: an empty simile that is found does not select the action.
\<close>

definition simileAction :: "string \<Rightarrow> action \<Rightarrow> string option" where
  "simileAction normalizedResponseAction a =
     (case a_similes a of
        None \<Rightarrow> None
      | Some ss \<Rightarrow>
          find (\<lambda>simile.
                  str_includes (replace_first (CHR ''_'') (toLowerCase simile))
                    normalizedResponseAction \<or>
                  str_includes normalizedResponseAction
                    (replace_first (CHR ''_'') (toLowerCase simile))) ss)"

definition simileMatches :: "string \<Rightarrow> action \<Rightarrow> bool" where
  "simileMatches normalizedResponseAction a =
     (case simileAction normalizedResponseAction a of Some s \<Rightarrow> s \<noteq> [] | None \<Rightarrow> False)"

text \<open>Resolution of one requested name: the name pass, then the simile pass.\<close>

definition resolveAction :: "runtime \<Rightarrow> string \<Rightarrow> runtime \<times> action option" where
  "resolveAction rt responseAction =
     (let normalizedResponseAction = normalizeAction responseAction
      in case find (nameMatches normalizedResponseAction) (actions rt) of
           Some a \<Rightarrow> (logger LSuccess (''Found action: '' @ a_name a) rt, Some a)
         | None \<Rightarrow>
             (let rt1 = logger LInfo ''Attempting to find action in similes.''
                          (logger LError (''No action found for: '' @ responseAction) rt)
              in case find (simileMatches normalizedResponseAction) (actions rt) of
                   Some a \<Rightarrow>
                     (logger LSuccess (''Action found in similes: '' @ a_name a) rt1, Some a)
                 | None \<Rightarrow> (rt1, None)))"

text \<open>
  \<^verbatim>\<open>await this.getDatabaseAdapter().log({... type: "action", body: {...}})\<close>. Reading
  \<^verbatim>\<open>.log\<close> of a missing adapter throws, and so does \<^verbatim>\<open>message.content.text\<close> of a
  message without content.
\<close>

definition logAction ::
  "runtime \<Rightarrow> memory \<Rightarrow> state \<Rightarrow> memory list \<Rightarrow> action \<Rightarrow> runtime \<times> unit outcome" where
  "logAction rt message st responses a =
     (case adapter rt of
        None \<Rightarrow> (rt, Threw (TypeError ''Cannot read properties of undefined (reading log)''))
      | Some ad \<Rightarrow>
          (case m_content message of
             None \<Rightarrow>
               (rt, Threw (TypeError ''Cannot read properties of undefined (reading text)''))
           | Some c \<Rightarrow>
               (let entry =
                  \<lparr>l_entityId = m_entityId message, l_roomId = m_roomId message,
                   l_type = ''action'',
                   l_body = ActionBody (a_name a) (c_text c) (m_id message) st responses\<rparr>
                in (emit (DbLog entry) rt, ad_log ad entry))))"

text \<open>The \<^verbatim>\<open>try { ... } catch (error) { logger.error(error); throw error; }\<close> block.\<close>

definition executeHandler ::
  "runtime \<Rightarrow> memory \<Rightarrow> state \<Rightarrow> callback option \<Rightarrow> memory list \<Rightarrow> action \<Rightarrow> handler \<Rightarrow>
   runtime \<times> unit outcome" where
  "executeHandler rt message st callback responses a h =
     (let rt1 = emit (HandlerRun (a_name a) message st callback responses)
                  (logger LInfo (''Executing handler for action: '' @ a_name a) rt)
      in case h message st callback responses of
           Threw e \<Rightarrow> (logger LError (error_text e) rt1, Threw e)
         | Returned u \<Rightarrow>
             (case logAction
                     (logger LSuccess (''Action '' @ a_name a @ '' executed successfully.'') rt1)
                     message st responses a of
                (rt2, Threw e) \<Rightarrow> (logger LError (error_text e) rt2, Threw e)
              | (rt2, Returned u') \<Rightarrow> (rt2, Returned ())))"

text \<open>
  The body of the inner loop after the state has been composed. The second argument
  of \<^verbatim>\<open>logger.error("No action found in", JSON.stringify(response))\<close> is left out
  of the text.
\<close>

definition runAction ::
  "runtime \<Rightarrow> memory \<Rightarrow> state \<Rightarrow> callback option \<Rightarrow> memory list \<Rightarrow> string \<Rightarrow>
   runtime \<times> unit outcome" where
  "runAction rt message st callback responses responseAction =
     (case resolveAction (logger LSuccess (''Calling action: '' @ responseAction) rt)
             responseAction of
        (rt1, None) \<Rightarrow> (logger LError ''No action found in'' rt1, Returned ())
      | (rt1, Some a) \<Rightarrow>
          (case a_handler a of
             None \<Rightarrow>
               (logger LError (''Action '' @ a_name a @ '' has no handler.'') rt1, Returned ())
           | Some h \<Rightarrow> executeHandler rt1 message st callback responses a h))"

text \<open>
  \<^verbatim>\<open>for (const responseAction of actions) { state = await this.composeState(message,
  ["RECENT_MESSAGES"]); ... }\<close>. The loop carries the variable \<^verbatim>\<open>state\<close>, which is the
  parameter of \<^verbatim>\<open>processActions\<close> on entry.
\<close>

fun actionsLoop ::
  "runtime \<Rightarrow> memory \<Rightarrow> memory list \<Rightarrow> callback option \<Rightarrow> state option \<Rightarrow> string list \<Rightarrow>
   runtime \<times> state option outcome" where
  "actionsLoop rt message responses callback st [] = (rt, Returned st)"
| "actionsLoop rt message responses callback st (responseAction # rest) =
     (case composeState rt message (Some [''RECENT_MESSAGES'']) None of
        (rt1, Threw e) \<Rightarrow> (rt1, Threw e)
      | (rt1, Returned st1) \<Rightarrow>
          (case runAction rt1 message st1 callback responses responseAction of
             (rt2, Threw e) \<Rightarrow> (rt2, Threw e)
           | (rt2, Returned u) \<Rightarrow>
               actionsLoop rt2 message responses callback (Some st1) rest))"

text \<open>\<^verbatim>\<open>for (const response of responses) { ... }\<close>\<close>

fun responsesLoop ::
  "runtime \<Rightarrow> memory \<Rightarrow> memory list \<Rightarrow> callback option \<Rightarrow> state option \<Rightarrow> memory list \<Rightarrow>
   runtime \<times> unit outcome" where
  "responsesLoop rt message responses callback st [] = (rt, Returned ())"
| "responsesLoop rt message responses callback st (response # rest) =
     (case responseActions response of
        None \<Rightarrow>
          responsesLoop (logger LWarn ''No action found in the response content.'' rt)
            message responses callback st rest
      | Some acts \<Rightarrow>
          (case actionsLoop
                  (logger LSuccess
                     (''Found actions: '' @
                      str_join '','' (map (\<lambda>a. normalizeAction (a_name a)) (actions rt))) rt)
                  message responses callback st acts of
             (rt1, Threw e) \<Rightarrow> (rt1, Threw e)
           | (rt1, Returned st1) \<Rightarrow> responsesLoop rt1 message responses callback st1 rest))"

definition processActions ::
  "runtime \<Rightarrow> memory \<Rightarrow> memory list \<Rightarrow> state option \<Rightarrow> callback option \<Rightarrow>
   runtime \<times> unit outcome" where
  "processActions rt message responses st callback =
     responsesLoop rt message responses callback st responses"

section \<open>Services\<close>

text \<open>
  \<^verbatim>\<open>registerService\<close> is an async function with one suspension point,
  \<^verbatim>\<open>await service.start(this)\<close>. \<open>registerService_begin\<close> is the part before it: the
  checks, and the call of the factory. \<open>registerService_finish\<close> is the part after
  it. A call that nothing interleaves with is the one followed by the other.
\<close>

definition registerService_begin ::
  "runtime \<Rightarrow> service \<Rightarrow> runtime \<times> (string \<times> service_instance outcome) option" where
  "registerService_begin rt svc =
     (case sv_serviceType svc of
        None \<Rightarrow> (rt, None)
      | Some serviceType \<Rightarrow>
          if serviceType = [] then (rt, None)
          else
            (let rt1 = logger LLog (who rt @ '' - Registering service: '' @ serviceType) rt
             in if services rt1 serviceType \<noteq> None
                then (logger LWarn
                        (who rt @ '' - Service '' @ serviceType @
                         '' is already registered. Skipping registration.'') rt1, None)
                else (emit (ServiceStart serviceType (sv_start svc ())) rt1,
                      Some (serviceType, sv_start svc ()))))"

definition registerService_finish ::
  "runtime \<Rightarrow> string \<times> service_instance outcome \<Rightarrow> runtime \<times> unit outcome" where
  "registerService_finish rt pending =
     (case pending of
        (serviceType, Threw e) \<Rightarrow> (rt, Threw e)
      | (serviceType, Returned serviceInstance) \<Rightarrow>
          (logger LSuccess
             (who rt @ '' - Service '' @ serviceType @ '' registered successfully'')
             (rt\<lparr>services := (services rt)(serviceType \<mapsto> serviceInstance)\<rparr>),
           Returned ()))"

definition registerService :: "runtime \<Rightarrow> service \<Rightarrow> runtime \<times> unit outcome" where
  "registerService rt svc =
     (case registerService_begin rt svc of
        (rt1, None) \<Rightarrow> (rt1, Returned ())
      | (rt1, Some pending) \<Rightarrow> registerService_finish rt1 pending)"

text \<open>The instances of a service type that factories have returned so far.\<close>

fun started :: "string \<Rightarrow> effect \<Rightarrow> service_instance option" where
  "started t (ServiceStart t' (Returned i)) = (if t' = t then Some i else None)"
| "started t e = None"

definition live :: "runtime \<Rightarrow> string \<Rightarrow> service_instance list" where
  "live rt t = List.map_filter (started t) (trace rt)"

text \<open>How often the factory of a service type has been called so far.\<close>

fun is_start :: "string \<Rightarrow> effect \<Rightarrow> bool" where
  "is_start t (ServiceStart t' r) = (t' = t)"
| "is_start t e = False"

definition starts :: "runtime \<Rightarrow> string \<Rightarrow> nat" where
  "starts rt t = length (filter (is_start t) (trace rt))"

section \<open>Models\<close>

text \<open>
  \<^verbatim>\<open>ModelType\<close> is a union of strings, so \<^verbatim>\<open>typeof modelType === "string"\<close> holds
  and \<^verbatim>\<open>modelKey\<close> is \<^verbatim>\<open>modelType\<close>.
\<close>

definition registerModel :: "runtime \<Rightarrow> string \<Rightarrow> model_handler \<Rightarrow> runtime" where
  "registerModel rt modelType h =
     rt\<lparr>models := (models rt)
          (modelType \<mapsto> (case models rt modelType of None \<Rightarrow> [] | Some hs \<Rightarrow> hs) @ [h])\<rparr>"

definition getModel :: "runtime \<Rightarrow> string \<Rightarrow> model_handler option" where
  "getModel rt modelType =
     (case models rt modelType of Some (h # hs) \<Rightarrow> Some h | _ \<Rightarrow> None)"

fun is_number :: "jsval \<Rightarrow> bool" where
  "is_number (JNum n) = True"
| "is_number x = False"

text \<open>What the audit entry holds for the response: a placeholder for an array of numbers.\<close>

definition loggedResponse :: "jsval \<Rightarrow> jsval" where
  "loggedResponse response =
     (case response of
        JArr xs \<Rightarrow> if list_all is_number xs then JStr ''[array]'' else response
      | _ \<Rightarrow> response)"

text \<open>The audit entry of \<^verbatim>\<open>useModel\<close>: the keys of the parameters, never their values.\<close>

definition modelLogEntry :: "runtime \<Rightarrow> string \<Rightarrow> jsval \<Rightarrow> jsval \<Rightarrow> log_entry" where
  "modelLogEntry rt modelType params response =
     \<lparr>l_entityId = agentId rt, l_roomId = agentId rt,
      l_type = ''useModel:'' @ modelType,
      l_body =
        ModelBody modelType modelType
          (if truthy params then map fst (own_entries params) else [])
          (loggedResponse response)\<rparr>"

definition useModel :: "runtime \<Rightarrow> string \<Rightarrow> jsval \<Rightarrow> runtime \<times> jsval outcome" where
  "useModel rt modelType params =
     (case getModel rt modelType of
        None \<Rightarrow> (rt, Threw (Error (''No handler found for delegate type: '' @ modelType)))
      | Some model \<Rightarrow>
          (let rt1 = emit (ModelRun modelType params) rt
           in case model params of
                Threw e \<Rightarrow> (rt1, Threw e)
              | Returned response \<Rightarrow>
                  (case adapter rt1 of
                     None \<Rightarrow>
                       (rt1, Threw (TypeError
                          ''Cannot read properties of undefined (reading log)''))
                   | Some ad \<Rightarrow>
                       (let entry = modelLogEntry rt1 modelType params response
                        in case ad_log ad entry of
                             Threw e \<Rightarrow> (emit (DbLog entry) rt1, Threw e)
                           | Returned u \<Rightarrow> (emit (DbLog entry) rt1, Returned response)))))"

section \<open>Plugins\<close>

definition registerDatabaseAdapter :: "runtime \<Rightarrow> db_adapter \<Rightarrow> runtime" where
  "registerDatabaseAdapter rt a =
     (if adapter rt \<noteq> None
      then logger LWarn
             (''Database adapter already registered. Additional adapters will be ignored. '' @
              ''This may lead to unexpected behavior.'') rt
      else rt\<lparr>adapter := Some a\<rparr>)"

definition registerAction :: "runtime \<Rightarrow> action \<Rightarrow> runtime" where
  "registerAction rt a =
     (let rt1 = logger LSuccess (who rt @ '' - Registering action: '' @ a_name a) rt
      in rt1\<lparr>actions := actions rt1 @ [a]\<rparr>)"

definition registerEvaluator :: "runtime \<Rightarrow> evaluator \<Rightarrow> runtime" where
  "registerEvaluator rt ev = rt\<lparr>evaluators := evaluators rt @ [ev]\<rparr>"

definition registerContextProvider :: "runtime \<Rightarrow> provider \<Rightarrow> runtime" where
  "registerContextProvider rt p = rt\<lparr>providers := providers rt @ [p]\<rparr>"

definition registerEvent :: "runtime \<Rightarrow> string \<Rightarrow> event_handler \<Rightarrow> runtime" where
  "registerEvent rt event h =
     rt\<lparr>events := (events rt)
          (event \<mapsto> (case events rt event of None \<Rightarrow> [] | Some hs \<Rightarrow> hs) @ [h])\<rparr>"

text \<open>
  \<^verbatim>\<open>await Promise.all(plugin.services.map((service) => this.registerService(service)))\<close>:
  every registration runs to its suspension point before any of them resumes. They
  resume here in the order of the list, and the first factory that threw is what the
  call throws (in JavaScript the order in which the factories settle decides both).
\<close>

fun beginAll ::
  "runtime \<Rightarrow> service list \<Rightarrow> runtime \<times> (string \<times> service_instance outcome) option list" where
  "beginAll rt [] = (rt, [])"
| "beginAll rt (svc # rest) =
     (case registerService_begin rt svc of
        (rt1, p) \<Rightarrow> (case beginAll rt1 rest of (rt2, ps) \<Rightarrow> (rt2, p # ps)))"

fun finishAll ::
  "runtime \<Rightarrow> (string \<times> service_instance outcome) option list \<Rightarrow> runtime \<times> unit outcome" where
  "finishAll rt [] = (rt, Returned ())"
| "finishAll rt (None # ps) = finishAll rt ps"
| "finishAll rt (Some pending # ps) =
     (case registerService_finish rt pending of
        (rt1, Threw e) \<Rightarrow> (rt1, Threw e)
      | (rt1, Returned u) \<Rightarrow> finishAll rt1 ps)"

text \<open>The registrations of \<^verbatim>\<open>registerPlugin\<close> that cannot throw, in the source's order.\<close>

definition registerParts :: "runtime \<Rightarrow> plugin \<Rightarrow> runtime" where
  "registerParts rt pl =
     (let rt1 = (if \<not> list_ex (\<lambda>p. pl_name p = pl_name pl) (plugins rt)
                 then rt\<lparr>plugins := plugins rt @ [pl]\<rparr> else rt);
          rt2 = (case pl_adapter pl of Some a \<Rightarrow> registerDatabaseAdapter rt1 a | None \<Rightarrow> rt1);
          rt3 = (case pl_actions pl of
                   Some xs \<Rightarrow> fold (\<lambda>a r. registerAction r a) xs rt2 | None \<Rightarrow> rt2);
          rt4 = (case pl_evaluators pl of
                   Some xs \<Rightarrow> fold (\<lambda>ev r. registerEvaluator r ev) xs rt3 | None \<Rightarrow> rt3);
          rt5 = (case pl_providers pl of
                   Some xs \<Rightarrow> fold (\<lambda>p r. registerContextProvider r p) xs rt4 | None \<Rightarrow> rt4);
          rt6 = (case pl_models pl of
                   Some xs \<Rightarrow> fold (\<lambda>(modelType, h) r. registerModel r modelType h) xs rt5
                 | None \<Rightarrow> rt5);
          rt7 = (case pl_routes pl of
                   Some xs \<Rightarrow> fold (\<lambda>route r. r\<lparr>routes := routes r @ [route]\<rparr>) xs rt6
                 | None \<Rightarrow> rt6)
      in case pl_events pl of
           Some xs \<Rightarrow>
             fold (\<lambda>(eventName, hs) r. fold (\<lambda>h r'. registerEvent r' eventName h) hs r) xs rt7
         | None \<Rightarrow> rt7)"

definition initPlugin :: "runtime \<Rightarrow> plugin \<Rightarrow> runtime \<times> unit outcome" where
  "initPlugin rt pl =
     (case pl_init pl of
        None \<Rightarrow> (rt, Returned ())
      | Some init \<Rightarrow> (emit (PluginInit (pl_name pl) (pl_config pl)) rt, init (pl_config pl)))"

text \<open>\<^verbatim>\<open>registerPlugin(plugin)\<close>; \<open>None\<close> is a null or undefined argument.\<close>

definition registerPlugin :: "runtime \<Rightarrow> plugin option \<Rightarrow> runtime \<times> unit outcome" where
  "registerPlugin rt plugin =
     (case plugin of
        None \<Rightarrow> (rt, Returned ())
      | Some pl \<Rightarrow>
          (let rt1 = registerParts rt pl
           in case pl_services pl of
                None \<Rightarrow> initPlugin rt1 pl
              | Some svcs \<Rightarrow>
                  (case beginAll rt1 svcs of
                     (rt2, pending) \<Rightarrow>
                       (case finishAll rt2 pending of
                          (rt3, Threw e) \<Rightarrow> (rt3, Threw e)
                        | (rt3, Returned u) \<Rightarrow> initPlugin rt3 pl))))"

section \<open>Notions used in the statements\<close>





text \<open>The log line that opens the pass over the actions of a response.\<close>

definition foundActions :: "runtime \<Rightarrow> runtime" where
  "foundActions rt =
     logger LSuccess
       (''Found actions: '' @
        str_join '','' (map (\<lambda>a. normalizeAction (a_name a)) (actions rt))) rt"

text \<open>
  The rest of a call of \<^verbatim>\<open>processActions\<close> after one requested action: the actions
  that follow it in its response, then the responses that follow.
\<close>

definition remaining ::
  "runtime \<Rightarrow> memory \<Rightarrow> memory list \<Rightarrow> callback option \<Rightarrow> state option \<Rightarrow>
   string list \<Rightarrow> memory list \<Rightarrow> runtime \<times> unit outcome" where
  "remaining rt message responses callback st rest later =
     (case actionsLoop rt message responses callback st rest of
        (rt1, Threw e) \<Rightarrow> (rt1, Threw e)
      | (rt1, Returned st1) \<Rightarrow> responsesLoop rt1 message responses callback st1 later)"


text \<open>A warning in the trace.\<close>

fun is_warning :: "effect \<Rightarrow> bool" where
  "is_warning (Logged LWarn s) = True"
| "is_warning e = False"

text \<open>Two runtimes with the same actions, providers and storage adapter.\<close>

definition same_registry :: "runtime \<Rightarrow> runtime \<Rightarrow> bool" where
  "same_registry rt rt' =
     (actions rt = actions rt' \<and> providers rt = providers rt' \<and> adapter rt = adapter rt')"

section \<open>Concrete instances\<close>

text \<open>A runtime with nothing registered, a provider that answers with a fixed text, a message.\<close>

definition bare_runtime :: runtime where
  "bare_runtime =
     \<lparr>agentId = ''agent-1'',
      character = \<lparr>ch_name = ''Eliza'', ch_secrets = JUndefined, ch_settings = JUndefined\<rparr>,
      adapter = None, actions = [], evaluators = [], providers = [], plugins = [],
      events = Map.empty, stateCache = Map.empty, services = Map.empty,
      models = Map.empty, routes = [], trace = []\<rparr>"

definition text_provider :: "nat \<Rightarrow> string \<Rightarrow> int option \<Rightarrow> bool \<Rightarrow> string \<Rightarrow> provider" where
  "text_provider r n pos priv t =
     \<lparr>p_ref = r, p_name = n, p_position = pos, p_private = priv, p_dynamic = False,
      p_get = (\<lambda>message cachedState.
                 Returned \<lparr>pr_values = JObj [(n, JStr t)], pr_text = Some t,
                           pr_data = JUndefined\<rparr>)\<rparr>"

definition ex_message :: memory where
  "ex_message =
     \<lparr>m_id = ''msg-1'', m_entityId = ''user-1'', m_roomId = ''room-1'',
      m_content = Some \<lparr>c_text = Some ''hello'', c_actions = None\<rparr>\<rparr>"

text \<open>
  The providers of the end-to-end example, registered out of order, and a private one
  between them.
\<close>

definition ex_runtime :: runtime where
  "ex_runtime =
     bare_runtime\<lparr>providers :=
       [text_provider 2 ''P2'' (Some 5) False ''ctx2'',
        text_provider 3 ''P3'' None True ''hidden'',
        text_provider 1 ''P1'' (Some 0) False ''ctx1'']\<rparr>"

text \<open>Two actions, one whose handler throws and one without a handler, and a response.\<close>

definition throwing_handler :: handler where
  "throwing_handler = (\<lambda>message st callback responses. Threw (Error ''boom''))"

definition ex_action :: "string \<Rightarrow> handler option \<Rightarrow> action" where
  "ex_action n h = \<lparr>a_name = n, a_similes = None, a_handler = h\<rparr>"

definition ex_response :: "string list \<Rightarrow> memory" where
  "ex_response acts =
     \<lparr>m_id = ''resp-1'', m_entityId = ''agent-1'', m_roomId = ''room-1'',
      m_content = Some \<lparr>c_text = Some ''ok'', c_actions = Some acts\<rparr>\<rparr>"

definition ex_actions_runtime :: runtime where
  "ex_actions_runtime =
     bare_runtime\<lparr>actions :=
       [ex_action ''SEND_MESSAGE'' (Some throwing_handler), ex_action ''MUTE_ROOM'' None]\<rparr>"

text \<open>Service descriptors, a storage adapter that accepts every entry, model handlers.\<close>

definition ex_service :: "string option \<Rightarrow> service_instance \<Rightarrow> service" where
  "ex_service t i = \<lparr>sv_serviceType = t, sv_start = (\<lambda>u. Returned i)\<rparr>"

definition ex_adapter :: db_adapter where
  "ex_adapter = \<lparr>ad_ref = 0, ad_log = (\<lambda>entry. Returned ())\<rparr>"

definition ex_model :: "jsval \<Rightarrow> model_handler" where
  "ex_model response = (\<lambda>params. Returned response)"

definition ex_models_runtime :: runtime where
  "ex_models_runtime =
     registerModel
       (registerModel (bare_runtime\<lparr>adapter := Some ex_adapter\<rparr>) ''TEXT_EMBEDDING''
          (ex_model (JArr [JNum 1, JNum 2])))
       ''TEXT_EMBEDDING'' (ex_model (JStr ''later''))"

text \<open>A private provider registered under the name of a public one.\<close>

definition ex_shared_name_runtime :: runtime where
  "ex_shared_name_runtime =
     bare_runtime\<lparr>providers :=
       [text_provider 1 ''X'' (Some 0) False ''pub'',
        text_provider 2 ''X'' (Some (- 1)) True ''priv'']\<rparr>"

text \<open>A provider that answers without a text.\<close>

definition silent_provider :: "nat \<Rightarrow> string \<Rightarrow> provider" where
  "silent_provider r n =
     \<lparr>p_ref = r, p_name = n, p_position = None, p_private = False, p_dynamic = False,
      p_get = (\<lambda>message cachedState.
                 Returned \<lparr>pr_values = JUndefined, pr_text = None, pr_data = JUndefined\<rparr>)\<rparr>"

definition ex_silent_runtime :: runtime where
  "ex_silent_runtime =
     bare_runtime\<lparr>providers :=
       [silent_provider 1 ''A'', text_provider 2 ''B'' None False ''b'']\<rparr>"

text \<open>A plugin with two services of one type; a runtime with a model and no adapter.\<close>

definition ex_plugin :: plugin where
  "ex_plugin =
     \<lparr>pl_name = ''twitter'', pl_adapter = None, pl_actions = None, pl_evaluators = None,
      pl_providers = None, pl_models = None, pl_routes = None, pl_events = None,
      pl_services = Some [ex_service (Some ''twitter'') 11, ex_service (Some ''twitter'') 12],
      pl_init = None, pl_config = JUndefined\<rparr>"

definition ex_no_adapter_runtime :: runtime where
  "ex_no_adapter_runtime =
     registerModel bare_runtime ''TEXT_EMBEDDING'' (ex_model (JArr [JNum 1, JNum 2]))"

text \<open>
  A runtime with a storage adapter and three actions: one whose handler returns, one
  whose handler throws and one without a handler.
\<close>

definition returning_handler :: handler where
  "returning_handler = (\<lambda>message st callback responses. Returned ())"

definition ex_dispatch_runtime :: runtime where
  "ex_dispatch_runtime =
     bare_runtime\<lparr>adapter := Some ex_adapter,
       actions :=
         [ex_action ''REPLY'' (Some returning_handler),
          ex_action ''SEND_MESSAGE'' (Some throwing_handler),
          ex_action ''MUTE_ROOM'' None]\<rparr>"

section \<open>Normalisation of action names\<close>

text \<open>
  C2. The specification has the requested name, every action name and every simile
  normalised by lower-casing and deleting every underscore. The code deletes the first
  underscore only: at \<^verbatim>\<open>"SEND_A_MESSAGE"\<close> it yields \<^verbatim>\<open>"senda_message"\<close>, where the
  specification has \<^verbatim>\<open>"sendamessage"\<close>.
\<close>

theorem normalizeAction_first_underscore_only:
  "normalizeAction ''SEND_A_MESSAGE'' = ''senda_message'' \<and>
   normalize_spec ''SEND_A_MESSAGE'' = ''sendamessage''"
  by (simp add: normalizeAction_def normalize_spec_def toLowerCase_def lower_char_def)


section \<open>Settings resolution\<close>

text \<open>
  C4, as the specification states it: the highest-priority source that contains the key
  decides. The code chains the sources with \<^verbatim>\<open>||\<close>, so a source that holds the key
  with a falsy value is passed over. With the secrets holding \<^verbatim>\<open>K: ""\<close> and the
  settings holding \<^verbatim>\<open>K: "x"\<close>, the code answers \<^verbatim>\<open>"x"\<close> where the statement has
  null.
\<close>

theorem getSetting_falsy_source_counterexample:
  "getSetting (JObj [])
     \<lparr>ch_name = ''Eliza'', ch_secrets = JObj [(''K'', JStr [])],
      ch_settings = JObj [(''K'', JStr ''x'')]\<rparr> ''K'' = JStr ''x'' \<and>
   getSetting_spec (JObj [])
     \<lparr>ch_name = ''Eliza'', ch_secrets = JObj [(''K'', JStr [])],
      ch_settings = JObj [(''K'', JStr ''x'')]\<rparr> ''K'' = JNull"
  by (simp add: getSetting_def getSetting_spec_def setting_sources_def js_or_def get_opt_def
      has_key_def coerce_setting_def)

text \<open>
  C4, amended: \<^verbatim>\<open>getSetting(key)\<close> returns the first truthy value found for the key in
  the order agent secrets, agent settings, nested settings-secrets, process-wide
  configuration, with \<^verbatim>\<open>"true"\<close> and \<^verbatim>\<open>"false"\<close> coerced to booleans; when no source
  holds a truthy value for the key, it returns null.
\<close>

theorem getSetting_first_truthy:
  "getSetting env ch key =
     (case find truthy (map (\<lambda>src. get_opt src key) (setting_sources env ch)) of
        None \<Rightarrow> JNull
      | Some v \<Rightarrow>
          if v = JStr ''true'' then JBool True
          else if v = JStr ''false'' then JBool False
          else v)"
  by (auto simp: getSetting_def setting_sources_def js_or_def Let_def)

section \<open>State composition: auxiliary facts\<close>

lemma providers_emit [simp]: "providers (emit e rt) = providers rt"
  by (simp add: emit_def)

lemma providers_logger [simp]: "providers (logger l s rt) = providers rt"
  by (simp add: logger_def)

lemma stateCache_emit [simp]: "stateCache (emit e rt) = stateCache rt"
  by (simp add: emit_def)

lemma stateCache_logger [simp]: "stateCache (logger l s rt) = stateCache rt"
  by (simp add: logger_def)

lemma stateCache_launch [simp]: "stateCache (launch rt message cs ps) = stateCache rt"
  unfolding launch_def by (induction ps arbitrary: rt) simp_all

lemma providers_launch [simp]: "providers (launch rt message cs ps) = providers rt"
  unfolding launch_def by (induction ps arbitrary: rt) simp_all

lemma awaitAll_fields:
  "awaitAll rt xs = (rt', res) \<Longrightarrow> providers rt' = providers rt \<and> stateCache rt' = stateCache rt"
  by (induction rt xs arbitrary: rt' res rule: awaitAll.induct)
     (auto split: prod.splits outcome.splits)

lemma awaitAll_results:
  "awaitAll rt xs = (rt', Returned ys) \<Longrightarrow> xs = map (\<lambda>(n, r). (n, Returned r)) ys"
  by (induction rt xs arbitrary: rt' ys rule: awaitAll.induct)
     (auto split: prod.splits outcome.splits)

lemma awaitAll_returns:
  "\<exists>rt'. awaitAll rt (map (\<lambda>(n, r). (n, Returned r)) ys) = (rt', Returned ys)"
proof (induction ys arbitrary: rt)
  case Nil
  show ?case by simp
next
  case (Cons y ys)
  obtain n r where y: "y = (n, r)" by (cases y)
  from Cons.IH [of "logger LWarn (n @ '' Provider took some ms to respond'') rt"]
  show ?case by (auto simp: y)
qed

lemma mergeValues_add: "mergeValues m cv = m ++ mergeValues Map.empty cv"
proof (induction cv arbitrary: m)
  case Nil
  show ?case by (simp add: mergeValues_def)
next
  case (Cons x cv)
  obtain n pv where x: "x = (n, pv)" by (cases x)
  show ?case
  proof (cases "truthy pv \<and> is_object pv")
    case True
    have "mergeValues m (x # cv) = mergeValues (m ++ map_of (own_entries pv)) cv"
      using True x by (simp add: mergeValues_def)
    also have "\<dots> = (m ++ map_of (own_entries pv)) ++ mergeValues Map.empty cv"
      by (rule Cons.IH)
    also have "\<dots> = m ++ (map_of (own_entries pv) ++ mergeValues Map.empty cv)"
      by simp
    also have "map_of (own_entries pv) ++ mergeValues Map.empty cv
                 = mergeValues (map_of (own_entries pv)) cv"
      by (rule Cons.IH [symmetric])
    also have "mergeValues (map_of (own_entries pv)) cv = mergeValues Map.empty (x # cv)"
      using True x by (simp add: mergeValues_def)
    finally show ?thesis .
  next
    case False
    have a: "mergeValues m (x # cv) = mergeValues m cv"
      using False x by (auto simp: mergeValues_def)
    have b: "mergeValues Map.empty (x # cv) = mergeValues Map.empty cv"
      using False x by (auto simp: mergeValues_def)
    show ?thesis unfolding a b by (rule Cons.IH)
  qed
qed

lemma mergeValues_twice:
  "(mergeValues ((mergeValues m cv)(k \<mapsto> v)) cv)(k \<mapsto> v) = (mergeValues m cv)(k \<mapsto> v)"
proof -
  define M where "M = mergeValues Map.empty cv"
  have a: "mergeValues m cv = m ++ M"
    unfolding M_def by (rule mergeValues_add)
  have b: "mergeValues ((m ++ M)(k \<mapsto> v)) cv = (m ++ M)(k \<mapsto> v) ++ M"
    unfolding M_def by (rule mergeValues_add)
  have "((m ++ M)(k \<mapsto> v) ++ M)(k \<mapsto> v) = (m ++ M)(k \<mapsto> v)"
    by (rule ext) (simp add: map_add_def split: option.splits)
  then show ?thesis by (simp add: a b)
qed

lemma composeState_Returned:
  assumes "composeState rt message filterList includeList = (rt', Returned st)"
  obtains rt2 providerData where
    "awaitAll (launch rt message (cachedStateOf rt message)
         (providersToGet rt (providerNames rt (cachedStateOf rt message) filterList includeList)))
       (map (\<lambda>p. (p_name p, p_get p message (cachedStateOf rt message)))
         (providersToGet rt (providerNames rt (cachedStateOf rt message) filterList includeList)))
     = (rt2, Returned providerData)"
    and "st = newState (cachedStateOf rt message) providerData"
    and "rt' = rt2\<lparr>stateCache := (stateCache rt2)(m_id message \<mapsto> st)\<rparr>"
proof -
  define cs where "cs = cachedStateOf rt message"
  define ps where "ps = providersToGet rt (providerNames rt cs filterList includeList)"
  obtain rt2 res where aw:
    "awaitAll (launch rt message cs ps) (map (\<lambda>p. (p_name p, p_get p message cs)) ps) = (rt2, res)"
    by (cases "awaitAll (launch rt message cs ps) (map (\<lambda>p. (p_name p, p_get p message cs)) ps)")
  have unf: "composeState rt message filterList includeList =
     (case res of Threw e \<Rightarrow> (rt2, Threw e)
      | Returned providerData \<Rightarrow>
          (rt2\<lparr>stateCache := (stateCache rt2)(m_id message \<mapsto> newState cs providerData)\<rparr>,
           Returned (newState cs providerData)))"
    unfolding composeState_def Let_def cs_def [symmetric] ps_def [symmetric] aw
    by (cases res) simp_all
  show thesis
  proof (cases res)
    case (Returned providerData)
    with unf assms have "st = newState cs providerData"
      and "rt' = rt2\<lparr>stateCache := (stateCache rt2)(m_id message \<mapsto> st)\<rparr>"
      by simp_all
    with aw Returned show thesis
      using that unfolding cs_def ps_def by blast
  next
    case (Threw e)
    with unf assms show thesis by simp
  qed
qed

lemma newState_consistent:
  "\<exists>cv. s_data (newState cs providerData) ''providers'' = Some (JObj cv) \<and>
        s_values (newState cs providerData) =
          (mergeValues (s_values (newState cs providerData)) cv)
            (''providers'' \<mapsto> JStr (s_text (newState cs providerData)))"
  by (simp add: newState_def Let_def mergeValues_twice)

lemma composeState_result_consistent:
  assumes "composeState rt message filterList includeList = (rt', Returned st)"
  shows "\<exists>cv. s_data st ''providers'' = Some (JObj cv) \<and>
              s_values st = (mergeValues (s_values st) cv)(''providers'' \<mapsto> JStr (s_text st))"
  using assms newState_consistent by (elim composeState_Returned) simp

lemma composeState_cached:
  assumes cache: "stateCache rt (m_id message) = Some st"
    and data: "s_data st ''providers'' = Some (JObj cv)"
    and vals: "s_values st = (mergeValues (s_values st) cv)(''providers'' \<mapsto> JStr (s_text st))"
    and cover: "\<forall>p\<in>set (providers rt). \<not> p_private p \<and> \<not> p_dynamic p \<longrightarrow>
                  p_name p \<in> set (existingProviderNames st)"
  shows "composeState rt message None None = (rt, Returned st)"
proof -
  have cs: "cachedStateOf rt message = st"
    using cache by (simp add: cachedStateOf_def)
  have names: "providerNames rt st None None = []"
    using cover by (auto simp: providerNames_def filter_empty_conv)
  have ps: "providersToGet rt [] = []"
    by (simp add: providersToGet_def dedup_def)
  have dp: "data_providers st = JObj cv"
    using data by (simp add: data_providers_def)
  have d: "(s_data st)(''providers'' \<mapsto> JObj cv) = s_data st"
    using data by (simp add: map_upd_triv)
  have pt: "providersText (s_text st) (newProvidersText []) = s_text st"
    by (simp add: providersText_def newProvidersText_def)
  have "newState st [] =
          \<lparr>s_values = (mergeValues (s_values st) cv)(''providers'' \<mapsto> JStr (s_text st)),
           s_data = s_data st, s_text = s_text st\<rparr>"
    by (simp add: newState_def Let_def dp js_or_def combineValues_def pt d)
  also have "\<dots> = st"
    using vals by simp
  finally have st: "newState st [] = st" .
  have c: "(stateCache rt)(m_id message \<mapsto> st) = stateCache rt"
    using cache by (simp add: map_upd_triv)
  show ?thesis
    by (simp add: composeState_def Let_def cs names ps launch_def st c)
qed

lemma composeState_fields:
  assumes "composeState rt message filterList includeList = (rt', Returned st)"
  shows "stateCache rt' (m_id message) = Some st \<and> providers rt' = providers rt"
  using assms
proof (elim composeState_Returned)
  fix rt2 providerData
  assume aw: "awaitAll (launch rt message (cachedStateOf rt message)
         (providersToGet rt (providerNames rt (cachedStateOf rt message) filterList includeList)))
       (map (\<lambda>p. (p_name p, p_get p message (cachedStateOf rt message)))
         (providersToGet rt (providerNames rt (cachedStateOf rt message) filterList includeList)))
     = (rt2, Returned providerData)"
    and rt': "rt' = rt2\<lparr>stateCache := (stateCache rt2)(m_id message \<mapsto> st)\<rparr>"
  from awaitAll_fields [OF aw] have "providers rt2 = providers rt" by simp
  with rt' show ?thesis by simp
qed

lemma combineValues_keys:
  "fst ` set (combineValues existing providerData) = fst ` set existing \<union> fst ` set providerData"
proof (induction providerData arbitrary: existing)
  case Nil
  show ?case by (simp add: combineValues_def)
next
  case (Cons x xs)
  obtain n r where x: "x = (n, r)" by (cases x)
  have "combineValues existing (x # xs)
          = combineValues (AList.update n (js_or (pr_values r) (JObj [])) existing) xs"
    by (simp add: combineValues_def x)
  then show ?case
    using Cons.IH [of "AList.update n (js_or (pr_values r) (JObj [])) existing"]
    by (simp add: x dom_update Un_ac)
qed

lemma set_dedup [simp]: "set (dedup xs) = set xs"
proof -
  have "set (fold (\<lambda>x acc. if x \<in> set acc then acc else acc @ [x]) xs acc) = set acc \<union> set xs"
    for acc :: "'a list"
    by (induction xs arbitrary: acc) auto
  then show ?thesis by (simp add: dedup_def)
qed


lemma composeState_covers:
  assumes ret: "composeState rt message None includeList = (rt', Returned st)"
    and p: "p \<in> set (providers rt)" "\<not> p_private p" "\<not> p_dynamic p"
  shows "p_name p \<in> set (existingProviderNames st)"
proof -
  define cs where "cs = cachedStateOf rt message"
  define names where "names = providerNames rt cs None includeList"
  define ps where "ps = providersToGet rt names"
  from ret obtain rt2 providerData where
    aw: "awaitAll (launch rt message cs ps) (map (\<lambda>p. (p_name p, p_get p message cs)) ps)
           = (rt2, Returned providerData)"
    and st: "st = newState cs providerData"
    unfolding cs_def names_def ps_def by (elim composeState_Returned) blast
  have keys: "set (existingProviderNames st) =
                fst ` set (own_entries (js_or (data_providers cs) (JObj []))) \<union> fst ` set providerData"
    by (simp add: st newState_def Let_def existingProviderNames_def data_providers_def
        combineValues_keys)
  have fetched: "fst ` set providerData = p_name ` set ps"
  proof -
    from awaitAll_results [OF aw]
    have "map fst (map (\<lambda>p. (p_name p, p_get p message cs)) ps)
            = map fst (map (\<lambda>(n, r). (n, Returned r)) providerData)"
      by simp
    then have "map p_name ps = map fst providerData"
      by (simp add: comp_def case_prod_unfold)
    then show ?thesis by (metis image_set)
  qed
  show ?thesis
  proof (cases "p_name p \<in> set (existingProviderNames cs)")
    case True
    then have "p_name p \<in> fst ` set (own_entries (js_or (data_providers cs) (JObj [])))"
      by (auto simp: existingProviderNames_def js_or_def split: if_splits)
    then show ?thesis using keys by blast
  next
    case False
    then have "p_name p \<in> set names"
      using p by (auto simp: names_def providerNames_def Let_def split: option.splits list.splits)
    then have "p \<in> set ps"
      using p by (simp add: ps_def providersToGet_def)
    then show ?thesis using keys fetched by blast
  qed
qed



lemma composeState_returns:
  assumes "\<forall>p\<in>set (providers rt). \<exists>r. p_get p message (cachedStateOf rt message) = Returned r"
  shows "\<exists>rt' st. composeState rt message filterList includeList = (rt', Returned st)"
proof -
  define cs where "cs = cachedStateOf rt message"
  define ps where "ps = providersToGet rt (providerNames rt cs filterList includeList)"
  have "set ps \<subseteq> set (providers rt)"
    by (auto simp: ps_def providersToGet_def)
  with assms have "\<forall>p\<in>set ps. \<exists>r. p_get p message cs = Returned r"
    unfolding cs_def by blast
  then obtain res where res: "\<forall>p\<in>set ps. p_get p message cs = Returned (res p)"
    by metis
  define providerData where "providerData = map (\<lambda>p. (p_name p, res p)) ps"
  have "map (\<lambda>p. (p_name p, p_get p message cs)) ps
          = map (\<lambda>(n, r). (n, Returned r)) providerData"
    using res by (simp add: providerData_def)
  then obtain rt2 where
    "awaitAll (launch rt message cs ps) (map (\<lambda>p. (p_name p, p_get p message cs)) ps)
       = (rt2, Returned providerData)"
    using awaitAll_returns [of "launch rt message cs ps" providerData] by auto
  then show ?thesis
    by (simp add: composeState_def Let_def cs_def [symmetric] ps_def [symmetric])
qed

text \<open>The fields of the concrete instances.\<close>

lemma text_provider_fields [simp]:
  "p_name (text_provider r n pos priv t) = n"
  "p_private (text_provider r n pos priv t) = priv"
  "p_dynamic (text_provider r n pos priv t) = False"
  "p_position (text_provider r n pos priv t) = pos"
  "p_ref (text_provider r n pos priv t) = r"
  "p_get (text_provider r n pos priv t) message cachedState =
     Returned \<lparr>pr_values = JObj [(n, JStr t)], pr_text = Some t, pr_data = JUndefined\<rparr>"
  by (simp_all add: text_provider_def)

lemma ex_runtime_fields [simp]:
  "providers ex_runtime =
     [text_provider 2 ''P2'' (Some 5) False ''ctx2'',
      text_provider 3 ''P3'' None True ''hidden'',
      text_provider 1 ''P1'' (Some 0) False ''ctx1'']"
  "stateCache ex_runtime = Map.empty"
  by (simp_all add: ex_runtime_def bare_runtime_def)

section \<open>State composition: the claims\<close>

text \<open>
  C9. \<^verbatim>\<open>composeState(message, filterList, includeList)\<close> writes at most the cache
  entry of \<^verbatim>\<open>message.id\<close>: at every other key the state cache after the call is the
  state cache before it, whether the call returns or throws.
\<close>

theorem composeState_frame:
  "k \<noteq> m_id message \<Longrightarrow>
   stateCache (fst (composeState rt message filterList includeList)) k = stateCache rt k"
proof -
  assume k: "k \<noteq> m_id message"
  define cs where "cs = cachedStateOf rt message"
  define ps where "ps = providersToGet rt (providerNames rt cs filterList includeList)"
  obtain rt2 res where aw:
    "awaitAll (launch rt message cs ps) (map (\<lambda>p. (p_name p, p_get p message cs)) ps) = (rt2, res)"
    by (cases "awaitAll (launch rt message cs ps) (map (\<lambda>p. (p_name p, p_get p message cs)) ps)")
  from awaitAll_fields [OF aw] have c: "stateCache rt2 = stateCache rt"
    by simp
  show ?thesis
    unfolding composeState_def Let_def cs_def [symmetric] ps_def [symmetric] aw
    using k c by (cases res) simp_all
qed

theorem composeState_frame_witness:
  "stateCache
     (fst (composeState (ex_runtime\<lparr>stateCache := [''msg-0'' \<mapsto> emptyState]\<rparr>)
             ex_message None None)) ''msg-0''
   = Some emptyState"
  using composeState_frame
    [of "''msg-0''" ex_message "ex_runtime\<lparr>stateCache := [''msg-0'' \<mapsto> emptyState]\<rparr>"
        None None]
  by (simp add: ex_message_def)

text \<open>
  C1. A cache entry is a snapshot that \<^verbatim>\<open>composeState\<close> returned. When the entry of a
  message names every registered provider that is neither private nor dynamic, the call
  \<^verbatim>\<open>composeState(message)\<close> without filter and include lists returns that snapshot
  and leaves the runtime as it was: the trace gains no provider call, and the cache is
  unchanged.
\<close>

theorem composeState_idempotent:
  assumes first: "composeState rt0 message0 filterList includeList = (rt1, Returned st)"
    and cache: "stateCache rt (m_id message) = Some st"
    and cover: "\<forall>p\<in>set (providers rt). \<not> p_private p \<and> \<not> p_dynamic p \<longrightarrow>
                  p_name p \<in> set (existingProviderNames st)"
  shows "composeState rt message None None = (rt, Returned st)"
proof -
  from composeState_result_consistent [OF first] obtain cv
    where "s_data st ''providers'' = Some (JObj cv)"
      and "s_values st = (mergeValues (s_values st) cv)(''providers'' \<mapsto> JStr (s_text st))"
    by blast
  then show ?thesis
    by (rule composeState_cached [OF cache _ _ cover])
qed


theorem composeState_idempotent_witness:
  "\<exists>rt1 st. composeState ex_runtime ex_message None None = (rt1, Returned st) \<and>
            composeState rt1 ex_message None None = (rt1, Returned st)"
proof -
  have "\<forall>p\<in>set (providers ex_runtime).
          \<exists>r. p_get p ex_message (cachedStateOf ex_runtime ex_message) = Returned r"
    by simp
  from composeState_returns [OF this] obtain rt1 st
    where first: "composeState ex_runtime ex_message None None = (rt1, Returned st)"
    by blast
  from composeState_fields [OF first]
  have cache: "stateCache rt1 (m_id ex_message) = Some st"
    and prov: "providers rt1 = providers ex_runtime"
    by simp_all
  have cover: "\<forall>p\<in>set (providers rt1). \<not> p_private p \<and> \<not> p_dynamic p \<longrightarrow>
                 p_name p \<in> set (existingProviderNames st)"
    unfolding prov using composeState_covers [OF first] by blast
  from composeState_idempotent [OF first cache cover] first show ?thesis
    by blast
qed






lemma silent_provider_fields [simp]:
  "p_name (silent_provider r n) = n"
  "p_private (silent_provider r n) = False"
  "p_dynamic (silent_provider r n) = False"
  "p_position (silent_provider r n) = None"
  "p_ref (silent_provider r n) = r"
  "p_get (silent_provider r n) message cachedState =
     Returned \<lparr>pr_values = JUndefined, pr_text = None, pr_data = JUndefined\<rparr>"
  by (simp_all add: silent_provider_def)

lemma text_provider_neq [simp]:
  "r \<noteq> r' \<Longrightarrow> text_provider r n pos priv t \<noteq> text_provider r' n' pos' priv' t'"
  "r \<noteq> r' \<Longrightarrow> silent_provider r n \<noteq> text_provider r' n' pos' priv' t'"
  "r \<noteq> r' \<Longrightarrow> text_provider r' n' pos' priv' t' \<noteq> silent_provider r n"
  by (metis text_provider_fields(5)) (metis text_provider_fields(5) silent_provider_fields(5))+

lemma ex_shared_name_runtime_fields [simp]:
  "providers ex_shared_name_runtime =
     [text_provider 1 ''X'' (Some 0) False ''pub'',
      text_provider 2 ''X'' (Some (- 1)) True ''priv'']"
  "stateCache ex_shared_name_runtime = Map.empty"
  by (simp_all add: ex_shared_name_runtime_def bare_runtime_def)

lemma ex_silent_runtime_fields [simp]:
  "providers ex_silent_runtime =
     [silent_provider 1 ''A'', text_provider 2 ''B'' None False ''b'']"
  "stateCache ex_silent_runtime = Map.empty"
  by (simp_all add: ex_silent_runtime_def bare_runtime_def)







section \<open>Action dispatch: auxiliary facts\<close>

lemma awaitAll_frame: "awaitAll rt xs = (rt', res) \<Longrightarrow> \<exists>tr. rt' = rt\<lparr>trace := tr\<rparr>"
proof (induction rt xs arbitrary: rt' res rule: awaitAll.induct)
  case (1 rt)
  then have "rt' = rt\<lparr>trace := trace rt\<rparr>" by simp
  then show ?case by blast
next
  case (2 rt n e rest)
  then have "rt' = rt\<lparr>trace := trace rt\<rparr>" by simp
  then show ?case by blast
next
  case (3 rt n r rest)
  let ?rt1 = "logger LWarn (n @ '' Provider took some ms to respond'') rt"
  obtain rt2 res2 where aw: "awaitAll ?rt1 rest = (rt2, res2)"
    by (cases "awaitAll ?rt1 rest")
  from "3.IH" [OF aw] obtain tr where "rt2 = ?rt1\<lparr>trace := tr\<rparr>" by blast
  then have rt2: "rt2 = rt\<lparr>trace := tr\<rparr>"
    by (simp add: logger_def emit_def)
  from "3.prems" aw have "rt' = rt2"
    by (cases res2) simp_all
  with rt2 show ?case by blast
qed

lemma launch_frame: "\<exists>tr. launch rt message cs ps = rt\<lparr>trace := tr\<rparr>"
proof (induction ps arbitrary: rt)
  case Nil
  have "launch rt message cs [] = rt\<lparr>trace := trace rt\<rparr>"
    by (simp add: launch_def)
  then show ?case by blast
next
  case (Cons p ps)
  from Cons [of "emit (ProviderGet (p_name p) message cs) rt"]
  obtain tr where
    "launch (emit (ProviderGet (p_name p) message cs) rt) message cs ps
       = (emit (ProviderGet (p_name p) message cs) rt)\<lparr>trace := tr\<rparr>"
    by blast
  then have "launch rt message cs (p # ps) = rt\<lparr>trace := tr\<rparr>"
    by (simp add: launch_def emit_def)
  then show ?case by blast
qed

lemma composeState_frame_all:
  assumes "composeState rt message filterList includeList = (rt', res)"
  shows "\<exists>tr c. rt' = rt\<lparr>trace := tr, stateCache := c\<rparr>"
proof -
  define cs where "cs = cachedStateOf rt message"
  define ps where "ps = providersToGet rt (providerNames rt cs filterList includeList)"
  obtain tr0 where l: "launch rt message cs ps = rt\<lparr>trace := tr0\<rparr>"
    using launch_frame by blast
  obtain rt2 res2 where aw:
    "awaitAll (launch rt message cs ps) (map (\<lambda>p. (p_name p, p_get p message cs)) ps) = (rt2, res2)"
    by (cases "awaitAll (launch rt message cs ps) (map (\<lambda>p. (p_name p, p_get p message cs)) ps)")
  from awaitAll_frame [OF aw] l obtain tr where rt2: "rt2 = rt\<lparr>trace := tr\<rparr>"
    by auto
  have "rt' = rt2 \<or> rt' = rt2\<lparr>stateCache := (stateCache rt2)(m_id message \<mapsto> newState cs (case res2 of Returned pd \<Rightarrow> pd))\<rparr>"
    using assms unfolding composeState_def Let_def cs_def [symmetric] ps_def [symmetric] aw
    by (cases res2) auto
  then show ?thesis
  proof
    assume "rt' = rt2"
    then have "rt' = rt\<lparr>trace := tr, stateCache := stateCache rt\<rparr>"
      by (simp add: rt2)
    then show ?thesis by blast
  next
    assume "rt' = rt2\<lparr>stateCache := (stateCache rt2)(m_id message \<mapsto> newState cs (case res2 of Returned pd \<Rightarrow> pd))\<rparr>"
    then show ?thesis unfolding rt2 by blast
  qed
qed

lemma responseActions_nonempty: "responseActions response = Some acts \<Longrightarrow> \<exists>x xs. acts = x # xs"
  by (auto simp: responseActions_def split: option.splits list.splits)

lemma actionsLoop_state: "actionsLoop rt message responses callback st1 (x # xs)
   = actionsLoop rt message responses callback st2 (x # xs)"
  by simp

lemma responsesLoop_state:
  "responsesLoop rt message responses callback st1 rs
     = responsesLoop rt message responses callback st2 rs"
proof (induction rs arbitrary: rt st1 st2)
  case Nil
  show ?case by simp
next
  case (Cons response rs)
  show ?case
  proof (cases "responseActions response")
    case None
    then show ?thesis using Cons.IH by simp
  next
    case (Some acts)
    then obtain x xs where acts: "acts = x # xs"
      using responseActions_nonempty by blast
    let ?rt = "logger LSuccess
                 (''Found actions: '' @
                  str_join '','' (map (\<lambda>a. normalizeAction (a_name a)) (actions rt))) rt"
    have "actionsLoop ?rt message responses callback st1 acts
            = actionsLoop ?rt message responses callback st2 acts"
      unfolding acts by (rule actionsLoop_state)
    then show ?thesis using Some by simp
  qed
qed

section \<open>Action dispatch: the claims\<close>

text \<open>
  C8. What \<^verbatim>\<open>processActions\<close> does is independent of its \<^verbatim>\<open>state\<close> argument: two
  calls that differ only in that argument give the same outcome and leave the same
  runtime, whose trace holds every handler call with its arguments. The variable is
  assigned from \<^verbatim>\<open>composeState\<close> before each use, and the value passed in is never
  read.
\<close>

theorem processActions_ignores_state:
  "processActions rt message responses st1 callback
     = processActions rt message responses st2 callback"
  unfolding processActions_def by (rule responsesLoop_state)

theorem processActions_ignores_state_witness:
  "processActions ex_actions_runtime ex_message [ex_response [''FLY'', ''mute_room'']] None None
     = processActions ex_actions_runtime ex_message [ex_response [''FLY'', ''mute_room'']]
         (Some emptyState) None"
  by (rule processActions_ignores_state)

lemma runAction_handler_throws:
  assumes "resolveAction (logger LSuccess (''Calling action: '' @ ra) rt1) ra = (rt2, Some a)"
    and "a_handler a = Some h"
    and "h message st1 callback responses = Threw e"
  shows "runAction rt1 message st1 callback responses ra =
           (logger LError (error_text e)
              (emit (HandlerRun (a_name a) message st1 callback responses)
                 (logger LInfo (''Executing handler for action: '' @ a_name a) rt2)),
            Threw e)"
  using assms by (simp add: runAction_def executeHandler_def)

lemma runAction_unresolved:
  assumes "resolveAction (logger LSuccess (''Calling action: '' @ ra) rt1) ra = (rt2, None)"
  shows "runAction rt1 message st1 callback responses ra =
           (logger LError ''No action found in'' rt2, Returned ())"
  using assms by (simp add: runAction_def)

lemma runAction_no_handler:
  assumes "resolveAction (logger LSuccess (''Calling action: '' @ ra) rt1) ra = (rt2, Some a)"
    and "a_handler a = None"
  shows "runAction rt1 message st1 callback responses ra =
           (logger LError (''Action '' @ a_name a @ '' has no handler.'') rt2, Returned ())"
  using assms by (simp add: runAction_def)

lemma actionsLoop_append:
  "actionsLoop rt message responses callback st (xs @ ys) =
     (case actionsLoop rt message responses callback st xs of
        (rt1, Threw e) \<Rightarrow> (rt1, Threw e)
      | (rt1, Returned st1) \<Rightarrow> actionsLoop rt1 message responses callback st1 ys)"
proof (induction xs arbitrary: rt st)
  case Nil
  show ?case by simp
next
  case (Cons x xs)
  obtain rt1 res where c:
    "composeState rt message (Some [''RECENT_MESSAGES'']) None = (rt1, res)"
    by (cases "composeState rt message (Some [''RECENT_MESSAGES'']) None")
  show ?case
  proof (cases res)
    case (Threw e)
    with c show ?thesis by simp
  next
    case (Returned st1)
    obtain rt2 res2 where r: "runAction rt1 message st1 callback responses x = (rt2, res2)"
      by (cases "runAction rt1 message st1 callback responses x")
    show ?thesis
      using c Returned r Cons.IH [of rt2 "Some st1"] by (cases res2) simp_all
  qed
qed

lemma actionsLoop_Cons_eq:
  assumes "composeState rt message (Some [''RECENT_MESSAGES'']) None = (rt1, Returned st1)"
  shows "actionsLoop rt message responses callback st (ra # rest) =
           (case runAction rt1 message st1 callback responses ra of
              (rt2, Threw e) \<Rightarrow> (rt2, Threw e)
            | (rt2, Returned u) \<Rightarrow> actionsLoop rt2 message responses callback (Some st1) rest)"
  using assms by simp

lemma actionsLoop_returned_state:
  assumes "actionsLoop rt message responses callback st1 xs = (rt', Returned s1)"
  shows "\<exists>s2. actionsLoop rt message responses callback st2 xs = (rt', Returned s2)"
proof (cases xs)
  case Nil
  with assms show ?thesis by simp
next
  case (Cons x xs')
  with assms show ?thesis
    unfolding Cons actionsLoop_state [of rt message responses callback st2 x xs' st1] by blast
qed

lemma remaining_state:
  "remaining rt message responses callback st1 rest later =
   remaining rt message responses callback st2 rest later"
proof (cases rest)
  case Nil
  show ?thesis
    unfolding Nil remaining_def
    by (simp add: responsesLoop_state [of _ _ _ _ st1 later st2])
next
  case (Cons x xs)
  show ?thesis
    unfolding Cons remaining_def actionsLoop_state [of rt message responses callback st1 x xs st2] ..
qed

lemma remaining_append:
  assumes "actionsLoop rt message responses callback st xs = (rt1, Returned st1)"
  shows "remaining rt message responses callback st (xs @ ys) later =
         remaining rt1 message responses callback st1 ys later"
  unfolding remaining_def actionsLoop_append using assms by simp

lemma remaining_Cons:
  assumes "composeState rt message (Some [''RECENT_MESSAGES'']) None = (rt1, Returned st1)"
  shows "remaining rt message responses callback st (ra # rest) later =
           (case runAction rt1 message st1 callback responses ra of
              (rt2, Threw e) \<Rightarrow> (rt2, Threw e)
            | (rt2, Returned u) \<Rightarrow> remaining rt2 message responses callback (Some st1) rest later)"
proof -
  obtain rt2 res2 where r: "runAction rt1 message st1 callback responses ra = (rt2, res2)"
    by (cases "runAction rt1 message st1 callback responses ra")
  show ?thesis
    unfolding remaining_def actionsLoop_Cons_eq [OF assms] r
    by (cases res2) simp_all
qed

lemma responsesLoop_append:
  "responsesLoop rt message responses callback st (xs @ ys) =
     (case responsesLoop rt message responses callback st xs of
        (rt1, Threw e) \<Rightarrow> (rt1, Threw e)
      | (rt1, Returned u) \<Rightarrow> responsesLoop rt1 message responses callback st ys)"
proof (induction xs arbitrary: rt st)
  case Nil
  show ?case by simp
next
  case (Cons response xs)
  show ?case
  proof (cases "responseActions response")
    case None
    then show ?thesis by (simp add: Cons.IH)
  next
    case (Some acts)
    let ?rt = "logger LSuccess
                 (''Found actions: '' @
                  str_join '','' (map (\<lambda>a. normalizeAction (a_name a)) (actions rt))) rt"
    obtain rt1 res where a: "actionsLoop ?rt message responses callback st acts = (rt1, res)"
      by (cases "actionsLoop ?rt message responses callback st acts")
    show ?thesis
    proof (cases res)
      case (Threw e)
      with Some a show ?thesis by simp
    next
      case (Returned st1)
      have "responsesLoop rt message responses callback st ((response # xs) @ ys) =
              responsesLoop rt1 message responses callback st1 (xs @ ys)"
        using Some a Returned by simp
      also have "\<dots> = responsesLoop rt1 message responses callback st (xs @ ys)"
        by (rule responsesLoop_state)
      also have "\<dots> =
          (case responsesLoop rt1 message responses callback st xs of
             (rt2, Threw e) \<Rightarrow> (rt2, Threw e)
           | (rt2, Returned u) \<Rightarrow> responsesLoop rt2 message responses callback st ys)"
        by (rule Cons.IH)
      also have "responsesLoop rt1 message responses callback st xs =
                 responsesLoop rt1 message responses callback st1 xs"
        by (rule responsesLoop_state)
      also have "responsesLoop rt1 message responses callback st1 xs =
                 responsesLoop rt message responses callback st (response # xs)"
        using Some a Returned by simp
      finally show ?thesis .
    qed
  qed
qed

lemma responsesLoop_Cons_remaining:
  assumes "responseActions response = Some acts"
  shows "responsesLoop rt message responses callback st (response # later) =
         remaining (foundActions rt) message responses callback st acts later"
  using assms by (simp add: remaining_def foundActions_def)

text \<open>
  The whole call, seen from one requested action: the responses before its response
  and the actions before it have been processed without a throw.
\<close>

lemma processActions_at:
  assumes batch: "responses = rpre @ response # later"
    and before: "responsesLoop rt0 message responses callback st rpre = (rtp, Returned ())"
    and acts: "responseActions response = Some (apre @ ra # rest)"
    and earlier:
      "actionsLoop (foundActions rtp) message responses callback stx apre = (rtq, Returned sty)"
    and composed:
      "composeState rtq message (Some [''RECENT_MESSAGES'']) None = (rt1, Returned st1)"
  shows "processActions rt0 message responses st callback =
           (case runAction rt1 message st1 callback responses ra of
              (rt2, Threw e) \<Rightarrow> (rt2, Threw e)
            | (rt2, Returned u) \<Rightarrow>
                remaining rt2 message responses callback (Some st1) rest later)"
proof -
  from actionsLoop_returned_state [OF earlier] obtain s2 where
    e2: "actionsLoop (foundActions rtp) message responses callback st apre = (rtq, Returned s2)"
    by blast
  have "responsesLoop rt0 message responses callback st responses =
          responsesLoop rt0 message responses callback st (rpre @ response # later)"
    using batch by simp
  then have "processActions rt0 message responses st callback =
          responsesLoop rt0 message responses callback st (rpre @ response # later)"
    by (simp add: processActions_def)
  also have "\<dots> = responsesLoop rtp message responses callback st (response # later)"
    unfolding responsesLoop_append before by simp
  also have "\<dots> =
      remaining (foundActions rtp) message responses callback st (apre @ ra # rest) later"
    by (rule responsesLoop_Cons_remaining [OF acts])
  also have "\<dots> = remaining rtq message responses callback s2 (ra # rest) later"
    by (rule remaining_append [OF e2])
  also have "\<dots> =
      (case runAction rt1 message st1 callback responses ra of
         (rt2, Threw e) \<Rightarrow> (rt2, Threw e)
       | (rt2, Returned u) \<Rightarrow> remaining rt2 message responses callback (Some st1) rest later)"
    by (rule remaining_Cons [OF composed])
  finally show ?thesis .
qed

text \<open>
  C5. Take any requested action \<open>ra\<close> of a call of \<^verbatim>\<open>processActions\<close>: the responses
  before its response and the requested actions before it in its response have been
  processed without a throw, the state has been composed and the name has been
  resolved to \<open>found\<close>.
  \<^item> If \<open>found\<close> is an action whose handler throws \<open>e\<close>, the call throws \<open>e\<close> and
    the runtime is the one the failing handler left, with the error logged last:
    none of the requested actions and responses that follow is processed.
  \<^item> If the name resolves to no action, or to an action without a handler, an error is
    logged and the call goes on with what remains: the requested actions that follow
    in the response, then the responses that follow.
  \<^item> For a handler in general, the call is what the \<^verbatim>\<open>try\<close> block around the handler
    gives: its throw, or else what remains, processed from the runtime it left.
\<close>

theorem processActions_handler_errors:
  assumes batch: "responses = rpre @ response # later"
    and before: "responsesLoop rt0 message responses callback st rpre = (rtp, Returned ())"
    and acts: "responseActions response = Some (apre @ ra # rest)"
    and earlier:
      "actionsLoop (foundActions rtp) message responses callback stx apre = (rtq, Returned sty)"
    and composed:
      "composeState rtq message (Some [''RECENT_MESSAGES'']) None = (rt1, Returned st1)"
    and resolved:
      "resolveAction (logger LSuccess (''Calling action: '' @ ra) rt1) ra = (rt2, found)"
  shows
    "(found = Some a \<longrightarrow> a_handler a = Some h \<longrightarrow>
      h message st1 callback responses = Threw e \<longrightarrow>
        processActions rt0 message responses st callback =
          (logger LError (error_text e)
             (emit (HandlerRun (a_name a) message st1 callback responses)
                (logger LInfo (''Executing handler for action: '' @ a_name a) rt2)),
           Threw e)) \<and>
     (found = None \<longrightarrow>
        processActions rt0 message responses st callback =
          remaining (logger LError ''No action found in'' rt2)
            message responses callback (Some st1) rest later) \<and>
     (found = Some a \<longrightarrow> a_handler a = None \<longrightarrow>
        processActions rt0 message responses st callback =
          remaining (logger LError (''Action '' @ a_name a @ '' has no handler.'') rt2)
            message responses callback (Some st1) rest later) \<and>
     (found = Some a \<longrightarrow> a_handler a = Some h \<longrightarrow>
        processActions rt0 message responses st callback =
          (case executeHandler rt2 message st1 callback responses a h of
             (rt3, Threw e) \<Rightarrow> (rt3, Threw e)
           | (rt3, Returned u) \<Rightarrow>
               remaining rt3 message responses callback (Some st1) rest later))"
proof (intro conjI impI)
  note at = processActions_at [OF batch before acts earlier composed]
  {
    assume f: "found = Some a" and h: "a_handler a = Some h"
      and t: "h message st1 callback responses = Threw e"
    show "processActions rt0 message responses st callback =
          (logger LError (error_text e)
             (emit (HandlerRun (a_name a) message st1 callback responses)
                (logger LInfo (''Executing handler for action: '' @ a_name a) rt2)),
           Threw e)"
      unfolding at runAction_handler_throws [OF resolved [unfolded f] h t] by simp
  }
  {
    assume f: "found = None"
    show "processActions rt0 message responses st callback =
          remaining (logger LError ''No action found in'' rt2)
            message responses callback (Some st1) rest later"
      unfolding at runAction_unresolved [OF resolved [unfolded f]] by simp
  }
  {
    assume f: "found = Some a" and h: "a_handler a = None"
    show "processActions rt0 message responses st callback =
          remaining (logger LError (''Action '' @ a_name a @ '' has no handler.'') rt2)
            message responses callback (Some st1) rest later"
      unfolding at runAction_no_handler [OF resolved [unfolded f] h] by simp
  }
  {
    assume f: "found = Some a" and h: "a_handler a = Some h"
    have "runAction rt1 message st1 callback responses ra =
            executeHandler rt2 message st1 callback responses a h"
      using resolved f h by (simp add: runAction_def)
    then show "processActions rt0 message responses st callback =
          (case executeHandler rt2 message st1 callback responses a h of
             (rt3, Threw e) \<Rightarrow> (rt3, Threw e)
           | (rt3, Returned u) \<Rightarrow>
               remaining rt3 message responses callback (Some st1) rest later)"
      unfolding at by simp
  }
qed

lemma ex_action_fields [simp]:
  "a_name (ex_action n h) = n"
  "a_similes (ex_action n h) = None"
  "a_handler (ex_action n h) = h"
  by (simp_all add: ex_action_def)

lemma responseActions_ex_response [simp]:
  "responseActions (ex_response (x # xs)) = Some (x # xs)"
  by (simp add: responseActions_def ex_response_def)

lemma ex_normalized [simp]:
  "normalizeAction ''SEND_MESSAGE'' = ''sendmessage''"
  "normalizeAction ''send_message'' = ''sendmessage''"
  "normalizeAction ''MUTE_ROOM'' = ''muteroom''"
  "normalizeAction ''mute_room'' = ''muteroom''"
  "normalizeAction ''FLY'' = ''fly''"
  by (simp_all add: normalizeAction_def toLowerCase_def lower_char_def)

text \<open>The concrete dispatch: what every pass of the loops leaves in place.\<close>

lemma same_registry_emit [simp]: "same_registry (emit e rt) rt' = same_registry rt rt'"
  by (simp add: same_registry_def emit_def)

lemma same_registry_logger [simp]: "same_registry (logger l s rt) rt' = same_registry rt rt'"
  by (simp add: same_registry_def logger_def emit_def)

lemma same_registry_foundActions [simp]:
  "same_registry (foundActions rt) rt' = same_registry rt rt'"
  by (simp add: foundActions_def)

lemma ex_dispatch_runtime_fields [simp]:
  "actions ex_dispatch_runtime =
     [ex_action ''REPLY'' (Some returning_handler),
      ex_action ''SEND_MESSAGE'' (Some throwing_handler),
      ex_action ''MUTE_ROOM'' None]"
  "providers ex_dispatch_runtime = []"
  "adapter ex_dispatch_runtime = Some ex_adapter"
  by (simp_all add: ex_dispatch_runtime_def bare_runtime_def)

lemma ex_normalized_reply [simp]:
  "normalizeAction ''REPLY'' = ''reply''"
  "normalizeAction ''reply'' = ''reply''"
  by (simp_all add: normalizeAction_def toLowerCase_def lower_char_def)

lemma ex_composed:
  assumes "same_registry rt ex_dispatch_runtime"
  shows "\<exists>rt1 st1. composeState rt message (Some [''RECENT_MESSAGES'']) None = (rt1, Returned st1) \<and>
           same_registry rt1 ex_dispatch_runtime"
proof -
  have "\<forall>p\<in>set (providers rt). \<exists>r. p_get p message (cachedStateOf rt message) = Returned r"
    using assms by (simp add: same_registry_def)
  from composeState_returns [OF this] obtain rt1 st1 where
    c: "composeState rt message (Some [''RECENT_MESSAGES'']) None = (rt1, Returned st1)"
    by blast
  from composeState_frame_all [OF c] obtain tr c' where
    "rt1 = rt\<lparr>trace := tr, stateCache := c'\<rparr>" by blast
  then have "same_registry rt1 ex_dispatch_runtime"
    using assms by (simp add: same_registry_def)
  with c show ?thesis by blast
qed

lemma ex_resolve:
  assumes "same_registry rt ex_dispatch_runtime"
  shows "resolveAction rt ''FLY'' =
           (logger LInfo ''Attempting to find action in similes.''
              (logger LError ''No action found for: FLY'' rt), None)"
    and "resolveAction rt ''reply'' =
           (logger LSuccess ''Found action: REPLY'' rt,
            Some (ex_action ''REPLY'' (Some returning_handler)))"
    and "resolveAction rt ''send_message'' =
           (logger LSuccess ''Found action: SEND_MESSAGE'' rt,
            Some (ex_action ''SEND_MESSAGE'' (Some throwing_handler)))"
    and "resolveAction rt ''MUTE_ROOM'' =
           (logger LSuccess ''Found action: MUTE_ROOM'' rt, Some (ex_action ''MUTE_ROOM'' None))"
  using assms
  by (simp_all add: same_registry_def resolveAction_def nameMatches_def simileMatches_def
      simileAction_def)

lemma ex_adapter_log [simp]: "ad_log ex_adapter entry = Returned ()"
  by (simp add: ex_adapter_def)

lemma ex_message_content [simp]:
  "m_content ex_message = Some \<lparr>c_text = Some ''hello'', c_actions = None\<rparr>"
  by (simp add: ex_message_def)

lemma ex_run:
  assumes "same_registry rt ex_dispatch_runtime"
  shows "\<exists>rt'. runAction rt ex_message st1 callback responses ''FLY'' = (rt', Returned ()) \<and>
           same_registry rt' ex_dispatch_runtime \<and>
           last (trace rt') = Logged LError ''No action found in''"
    and "\<exists>rt'. runAction rt ex_message st1 callback responses ''MUTE_ROOM'' = (rt', Returned ()) \<and>
           same_registry rt' ex_dispatch_runtime \<and>
           last (trace rt') = Logged LError ''Action MUTE_ROOM has no handler.''"
    and "\<exists>rt'. runAction rt ex_message st1 callback responses ''reply'' = (rt', Returned ()) \<and>
           same_registry rt' ex_dispatch_runtime"
proof -
  have s: "same_registry (logger LSuccess (''Calling action: '' @ ra) rt) ex_dispatch_runtime"
    for ra using assms by simp
  show "\<exists>rt'. runAction rt ex_message st1 callback responses ''FLY'' = (rt', Returned ()) \<and>
           same_registry rt' ex_dispatch_runtime \<and>
           last (trace rt') = Logged LError ''No action found in''"
    using assms
    by (simp add: runAction_unresolved [OF ex_resolve(1) [OF s]])
      (simp add: logger_def emit_def)
  show "\<exists>rt'. runAction rt ex_message st1 callback responses ''MUTE_ROOM'' = (rt', Returned ()) \<and>
           same_registry rt' ex_dispatch_runtime \<and>
           last (trace rt') = Logged LError ''Action MUTE_ROOM has no handler.''"
    using assms
    by (simp add: runAction_no_handler [OF ex_resolve(4) [OF s]])
      (simp add: logger_def emit_def)
  have a: "adapter (logger LSuccess ''Action REPLY executed successfully.''
             (emit (HandlerRun ''REPLY'' ex_message st1 callback responses)
                (logger LInfo ''Executing handler for action: REPLY''
                   (logger LSuccess ''Found action: REPLY''
                      (logger LSuccess ''Calling action: reply'' rt))))) = Some ex_adapter"
    using assms by (simp add: same_registry_def logger_def emit_def)
  show "\<exists>rt'. runAction rt ex_message st1 callback responses ''reply'' = (rt', Returned ()) \<and>
           same_registry rt' ex_dispatch_runtime"
    using assms ex_resolve(2) [OF s [of "''reply''"]]
    by (simp add: runAction_def executeHandler_def returning_handler_def logAction_def a)
qed

lemma ex_pass:
  assumes "same_registry rt ex_dispatch_runtime"
  shows "\<exists>rt' s. actionsLoop rt ex_message responses callback st (''FLY'' # rest) =
                   actionsLoop rt' ex_message responses callback (Some s) rest \<and>
           same_registry rt' ex_dispatch_runtime \<and>
           last (trace rt') = Logged LError ''No action found in''"
    and "\<exists>rt' s. actionsLoop rt ex_message responses callback st (''MUTE_ROOM'' # rest) =
                   actionsLoop rt' ex_message responses callback (Some s) rest \<and>
           same_registry rt' ex_dispatch_runtime \<and>
           last (trace rt') = Logged LError ''Action MUTE_ROOM has no handler.''"
    and "\<exists>rt' s. actionsLoop rt ex_message responses callback st (''reply'' # rest) =
                   actionsLoop rt' ex_message responses callback (Some s) rest \<and>
           same_registry rt' ex_dispatch_runtime"
proof -
  from ex_composed [OF assms] obtain rt1 st1 where
    c: "composeState rt ex_message (Some [''RECENT_MESSAGES'']) None = (rt1, Returned st1)"
    and s1: "same_registry rt1 ex_dispatch_runtime" by blast
  from ex_run(1) [OF s1] obtain r1 where
    "runAction rt1 ex_message st1 callback responses ''FLY'' = (r1, Returned ())"
    "same_registry r1 ex_dispatch_runtime" "last (trace r1) = Logged LError ''No action found in''"
    by blast
  then show "\<exists>rt' s. actionsLoop rt ex_message responses callback st (''FLY'' # rest) =
                   actionsLoop rt' ex_message responses callback (Some s) rest \<and>
           same_registry rt' ex_dispatch_runtime \<and>
           last (trace rt') = Logged LError ''No action found in''"
    unfolding actionsLoop_Cons_eq [OF c] by (intro exI [of _ r1] exI [of _ st1]) simp
  from ex_run(2) [OF s1] obtain r2 where
    "runAction rt1 ex_message st1 callback responses ''MUTE_ROOM'' = (r2, Returned ())"
    "same_registry r2 ex_dispatch_runtime"
    "last (trace r2) = Logged LError ''Action MUTE_ROOM has no handler.''"
    by blast
  then show "\<exists>rt' s. actionsLoop rt ex_message responses callback st (''MUTE_ROOM'' # rest) =
                   actionsLoop rt' ex_message responses callback (Some s) rest \<and>
           same_registry rt' ex_dispatch_runtime \<and>
           last (trace rt') = Logged LError ''Action MUTE_ROOM has no handler.''"
    unfolding actionsLoop_Cons_eq [OF c] by (intro exI [of _ r2] exI [of _ st1]) simp
  from ex_run(3) [OF s1] obtain r3 where
    "runAction rt1 ex_message st1 callback responses ''reply'' = (r3, Returned ())"
    "same_registry r3 ex_dispatch_runtime"
    by blast
  then show "\<exists>rt' s. actionsLoop rt ex_message responses callback st (''reply'' # rest) =
                   actionsLoop rt' ex_message responses callback (Some s) rest \<and>
           same_registry rt' ex_dispatch_runtime"
    unfolding actionsLoop_Cons_eq [OF c] by (intro exI [of _ r3] exI [of _ st1]) simp
qed

lemma ex_first_response:
  assumes "same_registry rt ex_dispatch_runtime"
  shows "\<exists>rt'. responsesLoop rt ex_message responses callback st [ex_response [''reply'', ''FLY'']] =
                 (rt', Returned ()) \<and>
           same_registry rt' ex_dispatch_runtime"
proof -
  have "same_registry (foundActions rt) ex_dispatch_runtime" using assms by simp
  from ex_pass(3) [OF this] obtain ra sa where
    a: "actionsLoop (foundActions rt) ex_message responses callback st [''reply'', ''FLY''] =
          actionsLoop ra ex_message responses callback (Some sa) [''FLY'']"
    and sa: "same_registry ra ex_dispatch_runtime" by blast
  from ex_pass(1) [OF sa] obtain rb sb where
    b: "actionsLoop ra ex_message responses callback (Some sa) [''FLY''] =
          actionsLoop rb ex_message responses callback (Some sb) []"
    and sb: "same_registry rb ex_dispatch_runtime" by blast
  have "responsesLoop rt ex_message responses callback st [ex_response [''reply'', ''FLY'']] =
          remaining (foundActions rt) ex_message responses callback st [''reply'', ''FLY''] []"
    by (rule responsesLoop_Cons_remaining) simp
  also have "\<dots> = (rb, Returned ())"
    unfolding remaining_def a b by simp
  finally show ?thesis using sb by blast
qed

theorem processActions_handler_errors_witness:
  "(\<exists>rt3. processActions ex_dispatch_runtime ex_message
            [ex_response [''reply'', ''FLY''],
             ex_response [''MUTE_ROOM'', ''send_message'', ''reply''],
             ex_response [''reply'']]
            None None = (rt3, Threw (Error ''boom'')) \<and>
          last (trace rt3) = Logged LError ''boom'') \<and>
   (\<exists>rt4. processActions ex_dispatch_runtime ex_message
            [ex_response [''reply'', ''FLY'']] None None = (rt4, Returned ()) \<and>
          last (trace rt4) = Logged LError ''No action found in'')"
proof (rule conjI)
  define rs where
    "rs = [ex_response [''reply'', ''FLY''],
           ex_response [''MUTE_ROOM'', ''send_message'', ''reply''],
           ex_response [''reply'']]"
  have s0: "same_registry ex_dispatch_runtime ex_dispatch_runtime"
    by (simp add: same_registry_def)
  from ex_first_response [OF s0] obtain rtp where
    before: "responsesLoop ex_dispatch_runtime ex_message rs None None
               [ex_response [''reply'', ''FLY'']] = (rtp, Returned ())"
    and sp: "same_registry rtp ex_dispatch_runtime" by blast
  have "same_registry (foundActions rtp) ex_dispatch_runtime" using sp by simp
  from ex_pass(2) [OF this] obtain rtq sq where
    e0: "actionsLoop (foundActions rtp) ex_message rs None None [''MUTE_ROOM''] =
           actionsLoop rtq ex_message rs None (Some sq) []"
    and sq: "same_registry rtq ex_dispatch_runtime" by blast
  have earlier: "actionsLoop (foundActions rtp) ex_message rs None None [''MUTE_ROOM''] =
                   (rtq, Returned (Some sq))"
    unfolding e0 by simp
  from ex_composed [OF sq] obtain rt1 st1 where
    composed: "composeState rtq ex_message (Some [''RECENT_MESSAGES'']) None = (rt1, Returned st1)"
    and s1: "same_registry rt1 ex_dispatch_runtime" by blast
  have "same_registry (logger LSuccess (''Calling action: '' @ ''send_message'') rt1)
          ex_dispatch_runtime"
    using s1 by simp
  note resolved = ex_resolve(3) [OF this]
  have batch: "rs = [ex_response [''reply'', ''FLY'']] @
                 ex_response [''MUTE_ROOM'', ''send_message'', ''reply''] #
                 [ex_response [''reply'']]"
    by (simp add: rs_def)
  have acts: "responseActions (ex_response [''MUTE_ROOM'', ''send_message'', ''reply'']) =
                Some ([''MUTE_ROOM''] @ ''send_message'' # [''reply''])"
    by simp
  note T = processActions_handler_errors [OF batch before acts earlier composed resolved,
      where a = "ex_action ''SEND_MESSAGE'' (Some throwing_handler)"
        and h = throwing_handler and e = "Error ''boom''"]
  have "processActions ex_dispatch_runtime ex_message rs None None =
          (logger LError (error_text (Error ''boom''))
             (emit (HandlerRun ''SEND_MESSAGE'' ex_message st1 None rs)
                (logger LInfo (''Executing handler for action: '' @ ''SEND_MESSAGE'')
                   (logger LSuccess ''Found action: SEND_MESSAGE''
                      (logger LSuccess (''Calling action: '' @ ''send_message'') rt1)))),
           Threw (Error ''boom''))"
    using T by (simp add: throwing_handler_def)
  then show "\<exists>rt3. processActions ex_dispatch_runtime ex_message
            [ex_response [''reply'', ''FLY''],
             ex_response [''MUTE_ROOM'', ''send_message'', ''reply''],
             ex_response [''reply'']]
            None None = (rt3, Threw (Error ''boom'')) \<and>
          last (trace rt3) = Logged LError ''boom''"
    by (simp add: rs_def logger_def emit_def)
next
  define rs where "rs = [ex_response [''reply'', ''FLY'']]"
  have "same_registry ex_dispatch_runtime ex_dispatch_runtime"
    by (simp add: same_registry_def)
  then have s0: "same_registry (foundActions ex_dispatch_runtime) ex_dispatch_runtime"
    by simp
  from ex_composed [OF s0] obtain rt1 st1 where
    composed: "composeState (foundActions ex_dispatch_runtime) ex_message
                 (Some [''RECENT_MESSAGES'']) None = (rt1, Returned st1)"
    and s1: "same_registry rt1 ex_dispatch_runtime" by blast
  have sc: "same_registry (logger LSuccess (''Calling action: '' @ ''reply'') rt1)
          ex_dispatch_runtime"
    using s1 by simp
  note resolved = ex_resolve(2) [OF sc]
  have batch: "rs = [] @ ex_response [''reply'', ''FLY''] # []"
    by (simp add: rs_def)
  have before: "responsesLoop ex_dispatch_runtime ex_message rs None None [] =
                  (ex_dispatch_runtime, Returned ())"
    by simp
  have acts: "responseActions (ex_response [''reply'', ''FLY'']) = Some ([] @ ''reply'' # [''FLY''])"
    by simp
  have earlier: "actionsLoop (foundActions ex_dispatch_runtime) ex_message rs None None [] =
                   (foundActions ex_dispatch_runtime, Returned None)"
    by simp
  note T = processActions_handler_errors [OF batch before acts earlier composed resolved,
      where a = "ex_action ''REPLY'' (Some returning_handler)" and h = returning_handler]
  define rt2 where
    "rt2 = logger LSuccess ''Found action: REPLY''
             (logger LSuccess (''Calling action: '' @ ''reply'') rt1)"
  have s2: "same_registry rt2 ex_dispatch_runtime" using s1 by (simp add: rt2_def)
  have a2: "adapter (logger LSuccess ''Action REPLY executed successfully.''
             (emit (HandlerRun ''REPLY'' ex_message st1 None rs)
                (logger LInfo ''Executing handler for action: REPLY'' rt2))) = Some ex_adapter"
    using s2 by (simp add: same_registry_def logger_def emit_def)
  obtain rt3 where
    x: "executeHandler rt2 ex_message st1 None rs (ex_action ''REPLY'' (Some returning_handler))
          returning_handler = (rt3, Returned ())"
    and s3: "same_registry rt3 ex_dispatch_runtime"
    using s2 by (simp add: executeHandler_def returning_handler_def logAction_def a2)
  from ex_pass(1) [OF s3] obtain rt4 s4 where
    p0: "actionsLoop rt3 ex_message rs None (Some st1) [''FLY''] =
           actionsLoop rt4 ex_message rs None (Some s4) []"
    and l: "last (trace rt4) = Logged LError ''No action found in''" by blast
  have p: "actionsLoop rt3 ex_message rs None (Some st1) [''FLY''] = (rt4, Returned (Some s4))"
    unfolding p0 by simp
  have "processActions ex_dispatch_runtime ex_message rs None None =
          remaining rt3 ex_message rs None (Some st1) [''FLY''] []"
    using T x by (simp add: rt2_def)
  also have "\<dots> = (rt4, Returned ())"
    unfolding remaining_def p by simp
  finally show "\<exists>rt4. processActions ex_dispatch_runtime ex_message
            [ex_response [''reply'', ''FLY'']] None None = (rt4, Returned ()) \<and>
          last (trace rt4) = Logged LError ''No action found in''"
    using l by (simp add: rs_def)
qed

section \<open>Services: the claim\<close>

lemma live_emit: "live (emit e rt) t = live rt t @ (case started t e of Some i \<Rightarrow> [i] | None \<Rightarrow> [])"
  by (simp add: live_def emit_def List.map_filter_def split: option.splits)

lemma registerService_services:
  "services (fst (registerService rt svc)) t =
     (case services rt t of
        Some i \<Rightarrow> Some i
      | None \<Rightarrow>
          if sv_serviceType svc = Some t \<and> t \<noteq> []
          then (case sv_start svc () of Returned i \<Rightarrow> Some i | Threw e \<Rightarrow> None)
          else None)"
  by (auto simp: registerService_def registerService_begin_def registerService_finish_def
      logger_def emit_def Let_def split: option.splits outcome.splits)

lemma registerService_live:
  "live (fst (registerService rt svc)) t =
     live rt t @
     (if services rt t = None \<and> sv_serviceType svc = Some t \<and> t \<noteq> []
      then (case sv_start svc () of Returned i \<Rightarrow> [i] | Threw e \<Rightarrow> [])
      else [])"
  by (auto simp: registerService_def registerService_begin_def registerService_finish_def
      logger_def live_emit live_def Let_def emit_def List.map_filter_def
      split: option.splits outcome.splits)

lemma ex_service_fields [simp]:
  "sv_serviceType (ex_service t i) = t"
  "sv_start (ex_service t i) u = Returned i"
  by (simp_all add: ex_service_def)

lemma ex_plugin_fields [simp]:
  "pl_name ex_plugin = ''twitter''" "pl_adapter ex_plugin = None" "pl_actions ex_plugin = None"
  "pl_evaluators ex_plugin = None" "pl_providers ex_plugin = None" "pl_models ex_plugin = None"
  "pl_routes ex_plugin = None" "pl_events ex_plugin = None"
  "pl_services ex_plugin = Some [ex_service (Some ''twitter'') 11, ex_service (Some ''twitter'') 12]"
  "pl_init ex_plugin = None"
  by (simp_all add: ex_plugin_def)

lemma bare_runtime_fields [simp]:
  "services bare_runtime = Map.empty" "trace bare_runtime = []" "plugins bare_runtime = []"
  "adapter bare_runtime = None" "models bare_runtime = Map.empty" "actions bare_runtime = []"
  "providers bare_runtime = []" "stateCache bare_runtime = Map.empty"
  by (simp_all add: bare_runtime_def)

lemma registerParts_ex_plugin:
  "registerParts bare_runtime ex_plugin = bare_runtime\<lparr>plugins := [ex_plugin]\<rparr>"
  by (simp add: registerParts_def)

lemma registerService_begin_fresh:
  "services rt t = None \<Longrightarrow> t \<noteq> [] \<Longrightarrow>
   registerService_begin rt (ex_service (Some t) i) =
     (emit (ServiceStart t (Returned i)) (logger LLog (who rt @ '' - Registering service: '' @ t) rt),
      Some (t, Returned i))"
  by (simp add: registerService_begin_def Let_def logger_def emit_def)

lemma registerService_finish_returned:
  "registerService_finish rt (t, Returned i) =
     (logger LSuccess (who rt @ '' - Service '' @ t @ '' registered successfully'')
        (rt\<lparr>services := (services rt)(t \<mapsto> i)\<rparr>), Returned ())"
  by (simp add: registerService_finish_def)

lemma trace_emit [simp]: "trace (emit e rt) = trace rt @ [e]"
  by (simp add: emit_def)

lemma trace_logger [simp]: "trace (logger l s rt) = trace rt @ [Logged l s]"
  by (simp add: logger_def)

lemma services_emit [simp]: "services (emit e rt) = services rt"
  by (simp add: emit_def)

lemma services_logger [simp]: "services (logger l s rt) = services rt"
  by (simp add: logger_def)

lemma who_emit [simp]: "who (emit e rt) = who rt"
  by (simp add: who_def emit_def)

lemma who_logger [simp]: "who (logger l s rt) = who rt"
  by (simp add: logger_def)

lemma who_services [simp]: "who (rt\<lparr>services := sv\<rparr>) = who rt"
  by (simp add: who_def)

text \<open>
  Registrations that run one after the other, each awaited before the next starts: the
  second descriptor of a type is skipped, its factory is not called and the registry
  keeps the first instance.
\<close>

lemma registerService_awaited:
  "services (fst (registerService (fst (registerService bare_runtime (ex_service (Some ''twitter'') 11)))
       (ex_service (Some ''twitter'') 12))) ''twitter'' = Some 11 \<and>
   starts (fst (registerService (fst (registerService bare_runtime (ex_service (Some ''twitter'') 11)))
       (ex_service (Some ''twitter'') 12))) ''twitter'' = 1"
proof -
  define rtA where "rtA = fst (registerService bare_runtime (ex_service (Some ''twitter'') 11))"
  have a: "registerService bare_runtime (ex_service (Some ''twitter'') 11) =
      (logger LSuccess (who bare_runtime @ '' - Service '' @ ''twitter'' @ '' registered successfully'')
         ((emit (ServiceStart ''twitter'' (Returned 11))
            (logger LLog (who bare_runtime @ '' - Registering service: '' @ ''twitter'') bare_runtime))
          \<lparr>services := [''twitter'' \<mapsto> 11]\<rparr>), Returned ())"
    by (simp add: registerService_def registerService_begin_fresh registerService_finish_returned)
  have sA: "services rtA ''twitter'' = Some 11" and stA: "starts rtA ''twitter'' = 1"
    by (simp_all add: rtA_def a starts_def)
  have "registerService rtA (ex_service (Some ''twitter'') 12) =
        (logger LWarn
           (who rtA @ '' - Service '' @ ''twitter'' @ '' is already registered. Skipping registration.'')
           (logger LLog (who rtA @ '' - Registering service: '' @ ''twitter'') rtA),
         Returned ())"
    using sA by (simp add: registerService_def registerService_begin_def Let_def)
  then show ?thesis
    unfolding rtA_def [symmetric] using sA stA by (simp add: starts_def)
qed

text \<open>
  C6. \<^verbatim>\<open>registerService\<close> skips a descriptor whose type is in the registry, with a
  warning. The check and the write of the registry are on either side of
  \<^verbatim>\<open>await service.start(this)\<close>, and \<^verbatim>\<open>registerPlugin\<close>, which is where the source
  calls \<^verbatim>\<open>registerService\<close>, registers the services of a plugin with
  \<^verbatim>\<open>Promise.all\<close>: every registration passes the check before any has written. For
  a plugin with two services of the type \<^verbatim>\<open>twitter\<close> on a runtime without services,
  both factories are called, no warning is logged, two instances are live and the
  registry holds the second one.
\<close>

theorem registerPlugin_starts_both_services:
  "services (fst (registerPlugin bare_runtime (Some ex_plugin))) ''twitter'' = Some 12 \<and>
   starts (fst (registerPlugin bare_runtime (Some ex_plugin))) ''twitter'' = 2 \<and>
   live (fst (registerPlugin bare_runtime (Some ex_plugin))) ''twitter'' = [11, 12] \<and>
   filter is_warning (trace (fst (registerPlugin bare_runtime (Some ex_plugin)))) = [] \<and>
   snd (registerPlugin bare_runtime (Some ex_plugin)) = Returned ()"
proof -
  define rt0 where "rt0 = bare_runtime\<lparr>plugins := [ex_plugin]\<rparr>"
  have f0: "services rt0 = Map.empty" "trace rt0 = []" "who rt0 = who bare_runtime"
    by (simp_all add: rt0_def who_def)
  define rt1 where
    "rt1 = emit (ServiceStart ''twitter'' (Returned 11))
             (logger LLog (who rt0 @ '' - Registering service: '' @ ''twitter'') rt0)"
  have b1: "registerService_begin rt0 (ex_service (Some ''twitter'') 11) =
              (rt1, Some (''twitter'', Returned 11))"
    unfolding rt1_def by (rule registerService_begin_fresh) (simp_all add: f0)
  define rt2 where
    "rt2 = emit (ServiceStart ''twitter'' (Returned 12))
             (logger LLog (who rt1 @ '' - Registering service: '' @ ''twitter'') rt1)"
  have s1: "services rt1 ''twitter'' = None"
    by (simp add: rt1_def f0)
  have b2: "registerService_begin rt1 (ex_service (Some ''twitter'') 12) =
              (rt2, Some (''twitter'', Returned 12))"
    unfolding rt2_def by (rule registerService_begin_fresh) (simp_all add: s1)
  have ba: "beginAll rt0 [ex_service (Some ''twitter'') 11, ex_service (Some ''twitter'') 12] =
              (rt2, [Some (''twitter'', Returned 11), Some (''twitter'', Returned 12)])"
    by (simp add: b1 b2)
  define rt3 where
    "rt3 = logger LSuccess (who rt2 @ '' - Service '' @ ''twitter'' @ '' registered successfully'')
             (rt2\<lparr>services := (services rt2)(''twitter'' \<mapsto> 11)\<rparr>)"
  define rt4 where
    "rt4 = logger LSuccess (who rt3 @ '' - Service '' @ ''twitter'' @ '' registered successfully'')
             (rt3\<lparr>services := (services rt3)(''twitter'' \<mapsto> 12)\<rparr>)"
  have fa: "finishAll rt2 [Some (''twitter'', Returned 11), Some (''twitter'', Returned 12)] =
              (rt4, Returned ())"
    by (simp add: registerService_finish_returned rt3_def rt4_def)
  have rp: "registerPlugin bare_runtime (Some ex_plugin) = (rt4, Returned ())"
    by (simp add: registerPlugin_def registerParts_ex_plugin rt0_def [symmetric] ba fa
        initPlugin_def del: beginAll.simps finishAll.simps)
  have tr: "trace rt4 =
      [Logged LLog (who bare_runtime @ '' - Registering service: twitter''),
       ServiceStart ''twitter'' (Returned 11),
       Logged LLog (who bare_runtime @ '' - Registering service: twitter''),
       ServiceStart ''twitter'' (Returned 12),
       Logged LSuccess (who bare_runtime @ '' - Service twitter registered successfully''),
       Logged LSuccess (who bare_runtime @ '' - Service twitter registered successfully'')]"
    by (simp add: rt4_def rt3_def rt2_def rt1_def f0)
  have sv: "services rt4 ''twitter'' = Some 12"
    by (simp add: rt4_def)
  show ?thesis
    unfolding rp by (simp add: sv tr starts_def live_def List.map_filter_def)
qed


section \<open>Models: the claim\<close>

lemma ex_model_apply [simp]: "ex_model v params = Returned v"
  by (simp add: ex_model_def)

text \<open>
  C7, as the specification states it: with a handler registered, \<^verbatim>\<open>useModel\<close>
  returns the raw result of the first handler. After the handler has returned, the code
  writes an audit entry through the storage adapter; on a runtime without an adapter
  that throws, and the result is lost. With one handler registered that returns
  \<^verbatim>\<open>[1, 2]\<close> and no adapter, \<^verbatim>\<open>useModel\<close> throws a \<^verbatim>\<open>TypeError\<close>.
\<close>

theorem useModel_no_adapter_counterexample:
  "models ex_no_adapter_runtime ''TEXT_EMBEDDING'' = Some [ex_model (JArr [JNum 1, JNum 2])] \<and>
   ex_model (JArr [JNum 1, JNum 2]) JNull = Returned (JArr [JNum 1, JNum 2]) \<and>
   snd (useModel ex_no_adapter_runtime ''TEXT_EMBEDDING'' JNull) =
     Threw (TypeError ''Cannot read properties of undefined (reading log)'')"
proof -
  have m: "models ex_no_adapter_runtime ''TEXT_EMBEDDING'' = Some [ex_model (JArr [JNum 1, JNum 2])]"
    by (simp add: ex_no_adapter_runtime_def registerModel_def)
  have a: "adapter ex_no_adapter_runtime = None"
    by (simp add: ex_no_adapter_runtime_def registerModel_def)
  have "snd (useModel ex_no_adapter_runtime ''TEXT_EMBEDDING'' JNull) =
     Threw (TypeError ''Cannot read properties of undefined (reading log)'')"
    by (simp add: useModel_def getModel_def m a Let_def emit_def)
  with m show ?thesis by simp
qed

text \<open>
  C7, amended. \<^verbatim>\<open>useModel(modelType, params)\<close> throws an error that carries the model
  type when no handler is registered for it. \<^verbatim>\<open>registerModel\<close> appends the handler to
  the list of its type and changes nothing else, so that with handlers registered the
  first of the list is the one resolved, before and after any further registration.
  \<^verbatim>\<open>useModel\<close> calls that handler. When the handler throws, so does \<^verbatim>\<open>useModel\<close>.
  When it returns, \<^verbatim>\<open>useModel\<close> writes an audit entry through the storage adapter:
  without an adapter it throws a \<^verbatim>\<open>TypeError\<close>, when the write fails it throws the
  error of the write, and otherwise it returns the handler's result as it is.
\<close>

theorem useModel_first_registered:
  "(getModel rt modelType = None \<longrightarrow>
      useModel rt modelType params =
        (rt, Threw (Error (''No handler found for delegate type: '' @ modelType)))) \<and>
   registerModel rt key h' =
     rt\<lparr>models := (models rt)
          (key \<mapsto> (case models rt key of None \<Rightarrow> [] | Some registered \<Rightarrow> registered) @ [h'])\<rparr> \<and>
   (models rt modelType = Some (h # hs) \<longrightarrow>
      getModel rt modelType = Some h \<and>
      getModel (registerModel rt key h') modelType = Some h \<and>
      useModel rt modelType params =
        (case h params of
           Threw e \<Rightarrow> (emit (ModelRun modelType params) rt, Threw e)
         | Returned response \<Rightarrow>
             (case adapter rt of
                None \<Rightarrow>
                  (emit (ModelRun modelType params) rt,
                   Threw (TypeError ''Cannot read properties of undefined (reading log)''))
              | Some ad \<Rightarrow>
                  (emit (DbLog (modelLogEntry rt modelType params response))
                     (emit (ModelRun modelType params) rt),
                   case ad_log ad (modelLogEntry rt modelType params response) of
                     Threw e \<Rightarrow> Threw e
                   | Returned u \<Rightarrow> Returned response))))"
proof (intro conjI impI)
  assume "getModel rt modelType = None"
  then show "useModel rt modelType params =
        (rt, Threw (Error (''No handler found for delegate type: '' @ modelType)))"
    by (simp add: useModel_def)
next
  show "registerModel rt key h' =
     rt\<lparr>models := (models rt)
          (key \<mapsto> (case models rt key of None \<Rightarrow> [] | Some registered \<Rightarrow> registered) @ [h'])\<rparr>"
    by (simp add: registerModel_def)
next
  assume m: "models rt modelType = Some (h # hs)"
  then show g: "getModel rt modelType = Some h"
    by (simp add: getModel_def)
  from m show "getModel (registerModel rt key h') modelType = Some h"
    by (cases "modelType = key") (auto simp: getModel_def registerModel_def)
  have e: "modelLogEntry (emit (ModelRun modelType params) rt) modelType params response
             = modelLogEntry rt modelType params response" for response
    by (simp add: modelLogEntry_def emit_def)
  have ad: "adapter (emit (ModelRun modelType params) rt) = adapter rt"
    by (simp add: emit_def)
  show "useModel rt modelType params =
        (case h params of
           Threw e \<Rightarrow> (emit (ModelRun modelType params) rt, Threw e)
         | Returned response \<Rightarrow>
             (case adapter rt of
                None \<Rightarrow>
                  (emit (ModelRun modelType params) rt,
                   Threw (TypeError ''Cannot read properties of undefined (reading log)''))
              | Some ad \<Rightarrow>
                  (emit (DbLog (modelLogEntry rt modelType params response))
                     (emit (ModelRun modelType params) rt),
                   case ad_log ad (modelLogEntry rt modelType params response) of
                     Threw e \<Rightarrow> Threw e
                   | Returned u \<Rightarrow> Returned response)))"
    unfolding useModel_def g Let_def ad e
    by (simp split: outcome.splits option.splits)
qed

lemma show_nat_digits [simp]: "show_nat 0 = ''0''" "show_nat (Suc 0) = ''1''"
  by (simp_all add: show_nat.simps)

theorem useModel_first_registered_witness:
  "useModel ex_models_runtime ''TEXT_EMBEDDING'' (JStr ''hi'') =
     (emit (DbLog \<lparr>l_entityId = ''agent-1'', l_roomId = ''agent-1'',
                    l_type = ''useModel:TEXT_EMBEDDING'',
                    l_body = ModelBody ''TEXT_EMBEDDING'' ''TEXT_EMBEDDING'' [''0'', ''1'']
                               (JStr ''[array]'')\<rparr>)
        (emit (ModelRun ''TEXT_EMBEDDING'' (JStr ''hi'')) ex_models_runtime),
      Returned (JArr [JNum 1, JNum 2])) \<and>
   useModel bare_runtime ''TEXT_EMBEDDING'' JNull =
     (bare_runtime, Threw (Error ''No handler found for delegate type: TEXT_EMBEDDING''))"
proof
  have m: "models ex_models_runtime ''TEXT_EMBEDDING'' =
             Some (ex_model (JArr [JNum 1, JNum 2]) # [ex_model (JStr ''later'')])"
    by (simp add: ex_models_runtime_def registerModel_def bare_runtime_def)
  have a: "adapter ex_models_runtime = Some ex_adapter"
    by (simp add: ex_models_runtime_def registerModel_def bare_runtime_def)
  have ag: "agentId ex_models_runtime = ''agent-1''"
    by (simp add: ex_models_runtime_def registerModel_def bare_runtime_def)
  have l: "ad_log ex_adapter entry = Returned ()" for entry
    by (simp add: ex_adapter_def)
  have en: "modelLogEntry ex_models_runtime ''TEXT_EMBEDDING'' (JStr ''hi'') (JArr [JNum 1, JNum 2]) =
      \<lparr>l_entityId = ''agent-1'', l_roomId = ''agent-1'',
                    l_type = ''useModel:TEXT_EMBEDDING'',
                    l_body = ModelBody ''TEXT_EMBEDDING'' ''TEXT_EMBEDDING'' [''0'', ''1'']
                               (JStr ''[array]'')\<rparr>"
    by (simp add: modelLogEntry_def ag loggedResponse_def upt_rec)
  from useModel_first_registered
    [where rt = ex_models_runtime and modelType = "''TEXT_EMBEDDING''"
       and h = "ex_model (JArr [JNum 1, JNum 2])" and hs = "[ex_model (JStr ''later'')]"
       and params = "JStr ''hi''"]
  show "useModel ex_models_runtime ''TEXT_EMBEDDING'' (JStr ''hi'') =
     (emit (DbLog \<lparr>l_entityId = ''agent-1'', l_roomId = ''agent-1'',
                    l_type = ''useModel:TEXT_EMBEDDING'',
                    l_body = ModelBody ''TEXT_EMBEDDING'' ''TEXT_EMBEDDING'' [''0'', ''1'']
                               (JStr ''[array]'')\<rparr>)
        (emit (ModelRun ''TEXT_EMBEDDING'' (JStr ''hi'')) ex_models_runtime),
      Returned (JArr [JNum 1, JNum 2]))"
    using m by (simp add: a l en)
next
  have "getModel bare_runtime ''TEXT_EMBEDDING'' = None"
    by (simp add: getModel_def bare_runtime_def)
  with useModel_first_registered
    [where rt = bare_runtime and modelType = "''TEXT_EMBEDDING''" and params = JNull]
  show "useModel bare_runtime ''TEXT_EMBEDDING'' JNull =
     (bare_runtime, Threw (Error ''No handler found for delegate type: TEXT_EMBEDDING''))"
    by simp
qed

section \<open>Plugins: the claim\<close>

text \<open>
  C10. \<^verbatim>\<open>registerPlugin\<close> called with null or undefined returns at once, without an
  error, and the runtime is the one before the call: plugins, actions, evaluators,
  providers, models, routes, event handlers, services and the bound adapter, and the
  trace, which gains no effect.
\<close>

theorem registerPlugin_absent:
  "registerPlugin rt None = (rt, Returned ())"
  by (simp add: registerPlugin_def)

theorem registerPlugin_absent_witness:
  "registerPlugin ex_actions_runtime None = (ex_actions_runtime, Returned ())"
  by (rule registerPlugin_absent)

end
